(* ===== verification/Prelude.thy ===== *)
theory Prelude
  imports Main "HOL-Library.Word"
begin

text \<open>
  Shared vocabulary of the smallsh model: the collection of executable equations used to
  run the model on concrete command lines, the decimal printing that the C code performs
  with \<open>printf\<close>/\<open>snprintf\<close> and its \<open>%d\<close> conversion, and generic lemmas on lists and
  characters that the component theories share.
\<close>

named_theorems model_simps "equations that evaluate the shell model on concrete inputs"

type_synonym pid = int
type_synonym path = string

subsection \<open>Decimal printing: the \<open>%d\<close> conversion\<close>

definition digit_char :: "nat \<Rightarrow> char" where
  "digit_char d = char_of (48 + d)"

fun show_nat :: "nat \<Rightarrow> string" where
  "show_nat n = (if n < 10 then [digit_char n] else show_nat (n div 10) @ [digit_char (n mod 10)])"

declare show_nat.simps [simp del]

definition show_int :: "int \<Rightarrow> string" where
  "show_int i = (if i < 0 then CHR ''-'' # show_nat (nat (- i)) else show_nat (nat i))"

definition is_digit :: "char \<Rightarrow> bool" where
  "is_digit c \<longleftrightarrow> (48::nat) \<le> of_char c \<and> of_char c < (58::nat)"

definition digit_val :: "char \<Rightarrow> nat" where
  "digit_val c = of_char c - 48"

text \<open>Reading a decimal numeral back, the inverse of \<open>show_nat\<close>.\<close>

definition read_nat :: "string \<Rightarrow> nat" where
  "read_nat s = foldl (\<lambda>acc c. 10 * acc + digit_val c) 0 s"

definition read_int :: "string \<Rightarrow> int" where
  "read_int s = (case s of c # cs \<Rightarrow> if c = CHR ''-'' then - int (read_nat cs) else int (read_nat s)
                         | [] \<Rightarrow> 0)"

subsection \<open>C strings\<close>

text \<open>
  A C string is the prefix of a buffer before its first NUL byte; \<open>strcmp(s, "")\<close> tests
  for the empty prefix. The shell never stores a NUL inside a token, so most of the model
  works on HOL strings directly.
\<close>

definition cstr :: "string \<Rightarrow> string" where
  "cstr s = takeWhile (\<lambda>c. c \<noteq> CHR 0x00) s"

subsection \<open>Lemmas on decimal numerals and C strings\<close>

lemmas decimal_defs [model_simps] = digit_char_def show_int_def is_digit_def digit_val_def
  read_nat_def read_int_def

lemma digit_char_is_digit [simp]: "d < 10 \<Longrightarrow> is_digit (digit_char d)"
  by (simp add: digit_char_def is_digit_def)

lemma digit_val_digit_char [simp]: "d < 10 \<Longrightarrow> digit_val (digit_char d) = d"
  by (simp add: digit_char_def digit_val_def)

lemma show_nat_digits: "\<forall>c \<in> set (show_nat n). is_digit c"
proof (induction n rule: show_nat.induct)
  case (1 n)
  then show ?case by (subst show_nat.simps) auto
qed

lemma show_nat_digit: "c \<in> set (show_nat n) \<Longrightarrow> is_digit c"
  using show_nat_digits by blast

lemma show_nat_nonempty [simp]: "show_nat n \<noteq> []"
  by (subst show_nat.simps) simp

lemma not_digit_special [simp]:
  "\<not> is_digit CHR ''$''" "\<not> is_digit CHR '' ''" "\<not> is_digit CHR ''-''" "\<not> is_digit CHR 0x00"
  by (simp_all add: is_digit_def)

lemma dollar_notin_show_nat [simp]: "CHR ''$'' \<notin> set (show_nat n)"
  using show_nat_digit by fastforce

lemma dollar_notin_show_int [simp]: "CHR ''$'' \<notin> set (show_int i)"
  by (simp add: show_int_def)

lemma space_notin_show_nat [simp]: "CHR '' '' \<notin> set (show_nat n)"
  using show_nat_digit by fastforce

lemma space_notin_show_int [simp]: "CHR '' '' \<notin> set (show_int i)"
  by (simp add: show_int_def)

lemma show_int_nonempty [simp]: "show_int i \<noteq> []"
  by (simp add: show_int_def)

lemma read_nat_snoc: "read_nat (s @ [c]) = 10 * read_nat s + digit_val c"
  by (simp add: read_nat_def)

lemma read_show_nat [simp]: "read_nat (show_nat n) = n"
proof (induction n rule: show_nat.induct)
  case (1 n)
  show ?case
  proof (cases "n < 10")
    case True
    then show ?thesis by (subst show_nat.simps) (simp add: read_nat_def)
  next
    case False
    with "1.IH" have "read_nat (show_nat (n div 10)) = n div 10" by simp
    with False show ?thesis by (subst show_nat.simps) (simp add: read_nat_snoc)
  qed
qed

lemma show_nat_hd_not_minus [simp]: "hd (show_nat n) \<noteq> CHR ''-''"
proof -
  have "hd (show_nat n) \<in> set (show_nat n)" by simp
  then show ?thesis using show_nat_digit by fastforce
qed

lemma cstr_no_nul [simp]: "CHR 0x00 \<notin> set s \<Longrightarrow> cstr s = s"
  by (auto simp: cstr_def)

subsection \<open>Generic list lemmas\<close>

lemma take_append_length [simp]: "j < length xs \<Longrightarrow> length (take j xs @ ys) = j + length ys"
  by simp

lemma count_list_drop_Suc_le: "count_list (drop (Suc j) xs) x \<le> count_list (drop j xs) x"
proof (cases "j < length xs")
  case True
  then have "drop j xs = xs ! j # drop (Suc j) xs" by (simp add: Cons_nth_drop_Suc)
  then show ?thesis by simp
next
  case False
  then show ?thesis by simp
qed

end
