(* ===== verification/WaitStatus.thy ===== *)
theory WaitStatus
  imports Prelude
begin

text \<open>
  The termination status the shell keeps in \<open>exit_status\<close> (\<open>int\<close>, a 32-bit word
  here): the kernel's encoding of how a child ended, the glibc macros \<open>WIFEXITED\<close>,
  \<open>WEXITSTATUS\<close> and \<open>WTERMSIG\<close> that \<open>main\<close> and \<open>execInput\<close> in src/driver.c apply
  to it, and the message both print from it. The lemmas show that the message reports
  the exit code modulo 256 of a child that exited and the signal number of a child that
  was killed, and that decoding inverts the encoding.
\<close>

unbundle bit_operations_syntax

type_synonym wstatus = "32 word"

text \<open>How a process ended: \<open>exit(c)\<close>, or killed by signal \<open>sig\<close> (with a core dump or not).\<close>

datatype proc_end = Exited int | Signaled nat bool

subsection \<open>The wait macros\<close>

definition WTERMSIG :: "wstatus \<Rightarrow> wstatus" where
  "WTERMSIG s = s AND 0x7f"

definition WIFEXITED :: "wstatus \<Rightarrow> bool" where
  "WIFEXITED s \<longleftrightarrow> WTERMSIG s = 0"

definition WEXITSTATUS :: "wstatus \<Rightarrow> wstatus" where
  "WEXITSTATUS s = drop_bit 8 (s AND 0xff00)"

definition WCOREDUMP :: "wstatus \<Rightarrow> bool" where
  "WCOREDUMP s \<longleftrightarrow> s AND 0x80 \<noteq> 0"

subsection \<open>The kernel's encoding\<close>

text \<open>
  \<open>exit(c)\<close> keeps the low byte of \<open>c\<close> in bits 8--15; a signal is stored in bits 0--6
  with bit 7 for a core dump (Linux \<open>wait4\<close>).
\<close>

definition wait_status :: "proc_end \<Rightarrow> wstatus" where
  "wait_status t = (case t of
      Exited c \<Rightarrow> push_bit 8 (word_of_int c AND 0xff)
    | Signaled sig core \<Rightarrow> (word_of_nat sig AND 0x7f) OR (if core then 0x80 else 0))"

definition decode_status :: "wstatus \<Rightarrow> proc_end" where
  "decode_status s = (if WIFEXITED s then Exited (uint (WEXITSTATUS s))
                      else Signaled (unat (WTERMSIG s)) (WCOREDUMP s))"

text \<open>A termination that the kernel can report: an exit code fits a byte, a signal is 1--126.\<close>

fun valid_end :: "proc_end \<Rightarrow> bool" where
  "valid_end (Exited c) \<longleftrightarrow> 0 \<le> c \<and> c < 256"
| "valid_end (Signaled sig core) \<longleftrightarrow> 0 < sig \<and> sig < 127"

subsection \<open>The status message\<close>

text \<open>
  \<open>main\<close>, built-in \<open>status\<close> (and \<open>execInput\<close> for a background child) prints
  \<^verbatim>\<open>Exited with signal: %d\<close> when \<open>WIFEXITED\<close> holds and
  \<^verbatim>\<open>Terminated with signal: %d\<close> otherwise.
\<close>

definition report_status :: "wstatus \<Rightarrow> string" where
  "report_status s =
     (if WIFEXITED s then ''Exited with signal: '' @ show_int (sint (WEXITSTATUS s)) @ ''\<newline>''
      else ''Terminated with signal: '' @ show_int (sint (WTERMSIG s)) @ ''\<newline>'')"

lemmas wait_defs [model_simps] = WTERMSIG_def WIFEXITED_def WEXITSTATUS_def WCOREDUMP_def
  wait_status_def decode_status_def report_status_def

subsection \<open>Bit-level lemmas\<close>

lemma mask_consts:
  "(0x7f :: wstatus) = mask 7" "(0xff :: wstatus) = mask 8"
  "(0xff00 :: wstatus) = push_bit 8 (mask 8)"
  by (simp_all add: mask_eq_exp_minus_1 push_bit_eq_mult)

lemma bit_0x80: "bit (0x80::wstatus) n \<longleftrightarrow> n = 7" "bit (0x80::int) n \<longleftrightarrow> n = 7"
proof -
  have "(0x80::wstatus) = push_bit 7 1" "(0x80::int) = push_bit 7 1" by simp_all
  then show "bit (0x80::wstatus) n \<longleftrightarrow> n = 7" "bit (0x80::int) n \<longleftrightarrow> n = 7"
    by (simp_all only: bit_push_bit_iff) (auto simp: bit_1_iff)
qed

lemma uint_and_0xff: "uint ((word_of_int c :: wstatus) AND 0xff) = c mod 256"
  unfolding mask_consts take_bit_eq_mask [symmetric] unsigned_take_bit_eq
  by (simp add: unsigned_of_int take_bit_eq_mod mod_mod_cancel)

lemma unat_and_0x7f: "unat ((word_of_nat n :: wstatus) AND 0x7f) = n mod 128"
  unfolding mask_consts take_bit_eq_mask [symmetric] unsigned_take_bit_eq
  by (simp add: unsigned_of_nat take_bit_eq_mod mod_mod_cancel)

lemma sint_small: "uint (w :: wstatus) < 2 ^ 31 \<Longrightarrow> sint w = uint w"
  by (simp add: sint_uint signed_take_bit_eq_if_positive bit_iff_odd take_bit_int_eq_self_iff)

lemma WTERMSIG_exited: "WTERMSIG (wait_status (Exited c)) = 0"
  unfolding WTERMSIG_def wait_status_def mask_consts
  by (rule bit_word_eqI) (auto simp: bit_simps)

lemma WEXITSTATUS_exited: "WEXITSTATUS (wait_status (Exited c)) = word_of_int c AND 0xff"
  unfolding WEXITSTATUS_def wait_status_def mask_consts
  by (rule bit_word_eqI) (auto simp: bit_simps)

lemma WTERMSIG_signaled: "WTERMSIG (wait_status (Signaled sig core)) = word_of_nat sig AND 0x7f"
  unfolding WTERMSIG_def wait_status_def mask_consts
  by (rule bit_word_eqI) (auto simp: bit_simps bit_0x80)

lemma WCOREDUMP_signaled: "WCOREDUMP (wait_status (Signaled sig core)) \<longleftrightarrow> core"
proof -
  have "(word_of_nat sig AND 0x7f OR (if core then 0x80 else 0)) AND 0x80 = (if core then 0x80 else (0::wstatus))"
    unfolding mask_consts by (rule bit_word_eqI) (auto simp: bit_simps bit_0x80)
  then show ?thesis by (simp add: WCOREDUMP_def wait_status_def)
qed

lemma WIFEXITED_exited [simp]: "WIFEXITED (wait_status (Exited c))"
  by (simp add: WIFEXITED_def WTERMSIG_exited)

lemma sint_exit_byte [simp]: "sint ((word_of_int c :: wstatus) AND 0xff) = c mod 256"
  using uint_and_0xff [of c] by (subst sint_small) auto

lemma unat_WTERMSIG_signaled: "unat (WTERMSIG (wait_status (Signaled sig core))) = sig mod 128"
  by (simp add: WTERMSIG_signaled unat_and_0x7f)

lemma WIFEXITED_signaled:
  "WIFEXITED (wait_status (Signaled sig core)) \<longleftrightarrow> sig mod 128 = 0"
  using unat_WTERMSIG_signaled [of sig core]
  by (metis WIFEXITED_def unsigned_eq_0_iff)

lemma decode_exited [simp]: "decode_status (wait_status (Exited c)) = Exited (c mod 256)"
  by (simp add: decode_status_def WEXITSTATUS_exited uint_and_0xff)

lemma decode_signaled [simp]:
  "sig mod 128 \<noteq> 0 \<Longrightarrow> decode_status (wait_status (Signaled sig core)) = Signaled (sig mod 128) core"
  by (simp add: decode_status_def WIFEXITED_signaled unat_WTERMSIG_signaled WCOREDUMP_signaled)

lemma report_status_0: "report_status 0 = ''Exited with signal: 0\<newline>''"
  by code_simp

text \<open>
  C26: The macros \<open>WIFEXITED\<close>, \<open>WEXITSTATUS\<close>, \<open>WTERMSIG\<close> and \<open>WCOREDUMP\<close> recover
  every end the kernel can report from the status word it stores.
\<close>

theorem decode_wait_status:
  assumes "valid_end e"
  shows "decode_status (wait_status e) = e"
  using assms by (cases e) simp_all

theorem decode_wait_status_witness:
  "valid_end (Signaled 9 True) \<and> decode_status (wait_status (Signaled 9 True)) = Signaled 9 True"
  using decode_wait_status [of "Signaled 9 True"] by simp

text \<open>
  C27: For a child that called \<open>exit(c)\<close>, \<open>status\<close> prints
  \<^verbatim>\<open>Exited with signal: \<close> followed by \<open>c mod 256\<close> (the specification says
  \<^verbatim>\<open>exited with code\<close>).
\<close>

theorem report_status_exited:
  "report_status (wait_status (Exited c)) = ''Exited with signal: '' @ show_int (c mod 256) @ ''\<newline>''"
  by (simp add: report_status_def WEXITSTATUS_exited)

theorem report_status_exited_witness:
  "report_status (wait_status (Exited 257)) = ''Exited with signal: 1\<newline>''"
  using report_status_exited [of 257] by code_simp

text \<open>
  C28: For a child killed by signal \<open>sig\<close> (1--127), \<open>status\<close> prints
  \<^verbatim>\<open>Terminated with signal: \<close> followed by \<open>sig\<close>.
\<close>

theorem report_status_signaled:
  assumes "0 < sig" "sig < 128"
  shows "report_status (wait_status (Signaled sig core)) = ''Terminated with signal: '' @ show_int (int sig) @ ''\<newline>''"
proof -
  have "unat (WTERMSIG (wait_status (Signaled sig core))) = sig"
    using assms by (simp add: unat_WTERMSIG_signaled)
  then have "sint (WTERMSIG (wait_status (Signaled sig core))) = int sig"
    using assms by (subst sint_small) (simp_all add: uint_nat)
  then show ?thesis using assms by (simp add: report_status_def WIFEXITED_signaled)
qed

theorem report_status_signaled_witness:
  "0 < (9::nat) \<and> (9::nat) < 128
   \<and> report_status (wait_status (Signaled 9 False)) = ''Terminated with signal: 9\<newline>''"
  using report_status_signaled [of 9 False] by code_simp

end
