(* ===== verification/Tokenizer.thy ===== *)
theory Tokenizer
  imports Prelude
begin

text \<open>
  The tokenizer of src/driver.c, \<open>getInput\<close> (lines 84--163): the prompt, \<open>fgets\<close>
  into a 2048-byte buffer, the newline strip, the blank-line check, \<open>strtok\<close> on the
  space character, and the token loop with its special tokens \<open>&\<close>, \<open><\<close>, \<open>>\<close>, the
  512-token cap and the in-place \<open>$$\<close> expansion. The command it fills in is the record
  \<open>cmd\<close>: the \<open>char *data[]\<close> array as a map from indices to strings (\<open>None\<close> is a
  NULL slot), the two redirection paths and the background flag. A NULL dereference is
  the error value \<open>Null_output_path\<close>. At end of input \<open>fgets\<close> returns NULL and
  leaves the uninitialised local buffer as it was; the code does not check the result
  and parses that buffer, which the model takes as a parameter \<open>stale\<close>.
\<close>

subsection \<open>Data\<close>

definition INPUTSIZE :: nat where
  "INPUTSIZE = 2048"

definition MAX_ARGS :: nat where
  "MAX_ARGS = 512"

datatype tok_error =
    Null_output_path  \<comment> \<open>\<open>strcpy(output_file, NULL)\<close> after a final \<open>>\<close>\<close>

record cmd =
  data :: "nat \<Rightarrow> string option"
  input_file :: string
  output_file :: string
  background :: bool

text \<open>\<open>main\<close> clears the array and the fields before each call (lines 26--29).\<close>

definition empty_cmd :: cmd where
  "empty_cmd = \<lparr>data = Map.empty, input_file = [], output_file = [], background = False\<rparr>"

subsection \<open>Reading a line\<close>

text \<open>
  \<open>fgets(input, n, stdin)\<close> reads at most \<open>n - 1\<close> characters and stops after a newline;
  on an empty stream it returns NULL. The rest of the stream is returned as well.
\<close>

fun fgets_chars :: "nat \<Rightarrow> string \<Rightarrow> string \<times> string" where
  "fgets_chars 0 s = ([], s)"
| "fgets_chars (Suc k) [] = ([], [])"
| "fgets_chars (Suc k) (c # cs) =
     (if c = CHR ''\<newline>'' then ([c], cs) else (let (l, r) = fgets_chars k cs in (c # l, r)))"

definition fgets :: "nat \<Rightarrow> string \<Rightarrow> (string \<times> string) option" where
  "fgets n inp = (if inp = [] then None else Some (fgets_chars (n - 1) inp))"

text \<open>Lines 95--99 overwrite every newline of the buffer with NUL; the C string ends there.\<close>

definition strip_newline :: "string \<Rightarrow> string" where
  "strip_newline buf = cstr (map (\<lambda>c. if c = CHR ''\<newline>'' then CHR 0x00 else c) buf)"

subsection \<open>strtok on the space character\<close>

text \<open>
  One call of \<open>strtok(s, " ")\<close>: skip the leading spaces; if nothing is left there is no
  token; otherwise the token runs to the next space, which is overwritten by NUL, and the
  next call continues after it.
\<close>

definition strtok_next :: "string \<Rightarrow> (string \<times> string) option" where
  "strtok_next s =
     (let s' = dropWhile (\<lambda>c. c = CHR '' '') s in
      if s' = [] then None
      else Some (takeWhile (\<lambda>c. c \<noteq> CHR '' '') s', drop 1 (dropWhile (\<lambda>c. c \<noteq> CHR '' '') s')))"

function strtok_all :: "string \<Rightarrow> string list" where
  "strtok_all s = (case strtok_next s of None \<Rightarrow> [] | Some (t, r) \<Rightarrow> t # strtok_all r)"
  by pat_completeness auto
termination
proof (relation "measure length")
  fix s x t r
  let ?s' = "dropWhile (\<lambda>c. c = CHR '' '') s"
  assume "strtok_next s = Some x" "(t, r) = x"
  then have r: "r = drop 1 (dropWhile (\<lambda>c. c \<noteq> CHR '' '') ?s')" and ne: "?s' \<noteq> []"
    by (auto simp: strtok_next_def Let_def split: if_splits)
  have "length (drop 1 (dropWhile P xs)) < length xs" if "xs \<noteq> []" for P and xs :: string
    using that length_dropWhile_le [of P "tl xs"] by (cases xs) auto
  from this [OF ne] have "length r < length ?s'" by (simp only: r)
  then show "(r, s) \<in> measure length"
    using length_dropWhile_le [of "\<lambda>c. c = CHR '' ''" s] by simp
qed simp

subsection \<open>The \<open>$$\<close> expansion\<close>

text \<open>
  Lines 142--152 scan the freshly \<open>strdup\<close>ed token with index \<open>j\<close>. At a pair
  \<open>$$\<close> both characters become NUL and \<open>strcat\<close> appends the decimal pid at the first
  NUL, that is at \<open>j\<close>: the buffer now holds \<open>take j buf @ pid\<close>, and the scan goes on
  inside the appended digits. The test \<open>data[i][j + 1] == '$'\<close> reads the terminating NUL
  when \<open>j\<close> is the last index, which is never \<open>$\<close>.
\<close>

function expand_loop :: "pid \<Rightarrow> string \<Rightarrow> nat \<Rightarrow> string" where
  "expand_loop pid buf j =
     (if j < length buf then
        (if buf ! j = CHR ''$'' \<and> Suc j < length buf \<and> buf ! Suc j = CHR ''$''
         then expand_loop pid (take j buf @ show_int pid) (Suc j)
         else expand_loop pid buf (Suc j))
      else buf)"
  by pat_completeness auto
termination
proof (relation "measures [\<lambda>(pid, buf, j). count_list (drop j buf) (CHR ''$''),
                           \<lambda>(pid, buf, j). length buf - j]")
  show "wf (measures [\<lambda>(pid, buf, j). count_list (drop j buf) (CHR ''$''),
                      \<lambda>(pid, buf, j). length buf - j])" by simp
next
  fix pid :: pid and buf :: string and j :: nat
  assume j: "j < length buf" and pair: "buf ! j = CHR ''$'' \<and> Suc j < length buf \<and> buf ! Suc j = CHR ''$''"
  have "drop j buf = buf ! j # drop (Suc j) buf" using j by (simp add: Cons_nth_drop_Suc)
  then have "0 < count_list (drop j buf) (CHR ''$'')" using pair by simp
  moreover have "drop (Suc j) (take j buf @ show_int pid) = drop 1 (show_int pid)"
    using j by simp
  moreover have "count_list (drop 1 (show_int pid)) (CHR ''$'') = 0"
    using dollar_notin_show_int [of pid] by (metis count_list_0_iff in_set_dropD)
  ultimately show "((pid, take j buf @ show_int pid, Suc j), pid, buf, j)
      \<in> measures [\<lambda>(pid, buf, j). count_list (drop j buf) (CHR ''$''), \<lambda>(pid, buf, j). length buf - j]"
    by simp
next
  fix pid :: pid and buf :: string and j :: nat
  assume j: "j < length buf"
  have "count_list (drop (Suc j) buf) (CHR ''$'') \<le> count_list (drop j buf) (CHR ''$'')"
    by (rule count_list_drop_Suc_le)
  with j show "((pid, buf, Suc j), pid, buf, j)
      \<in> measures [\<lambda>(pid, buf, j). count_list (drop j buf) (CHR ''$''), \<lambda>(pid, buf, j). length buf - j]"
    by (auto simp: order_le_less)
qed

definition expand_pid :: "pid \<Rightarrow> string \<Rightarrow> string" where
  "expand_pid pid tok = expand_loop pid tok 0"

subsection \<open>The token loop\<close>

definition max_args_msg :: string where
  "max_args_msg = ''There is a max of 512 arguments.\<newline>''"

text \<open>
  The \<open>while (token)\<close> loop of lines 114--157 over the tokens \<open>strtok\<close> returns, with
  the command, the index \<open>i\<close> (incremented once per iteration, also for \<open>&\<close>, \<open><\<close> and
  \<open>>\<close>), the flag \<open>check_background\<close> (reset at the top of every iteration) and the text
  printed. A \<open><\<close> or \<open>>\<close> consumes the next token as its path; with no next token \<open><\<close>
  leaves the path alone while \<open>>\<close> passes NULL to \<open>strcpy\<close>.
\<close>

fun parse_loop :: "pid \<Rightarrow> string list \<Rightarrow> cmd \<Rightarrow> nat \<Rightarrow> bool \<Rightarrow> tok_error + (cmd \<times> bool \<times> string)" where
  "parse_loop pid [] c i chk = Inr (c, chk, [])"
| "parse_loop pid (tok # toks) c i chk =
     (if MAX_ARGS \<le> i then Inr (c, False, max_args_msg)
      else if tok = ''&'' then parse_loop pid toks c (Suc i) True
      else if tok = ''<'' then
        (case toks of
           [] \<Rightarrow> parse_loop pid [] c (Suc i) False
         | f # toks' \<Rightarrow> parse_loop pid toks' (c\<lparr>input_file := f\<rparr>) (Suc i) False)
      else if tok = ''>'' then
        (case toks of
           [] \<Rightarrow> Inl Null_output_path
         | f # toks' \<Rightarrow> parse_loop pid toks' (c\<lparr>output_file := f\<rparr>) (Suc i) False)
      else parse_loop pid toks (c\<lparr>data := (data c)(i \<mapsto> expand_pid pid tok)\<rparr>) (Suc i) False)"

text \<open>
  The part of \<open>getInput\<close> after \<open>fgets\<close> (lines 94--162): strip the newline; an empty
  line yields the single argument \<open>""\<close>; otherwise tokenize and run the loop, and set the
  background flag if the last iteration saw \<open>&\<close>.
\<close>

definition parse_line :: "pid \<Rightarrow> string \<Rightarrow> cmd \<Rightarrow> tok_error + (cmd \<times> string)" where
  "parse_line pid buf c =
     (let line = strip_newline buf in
      if line = [] then Inr (c\<lparr>data := (data c)(0 \<mapsto> [])\<rparr>, [])
      else (case parse_loop pid (strtok_all line) c 0 False of
              Inl e \<Rightarrow> Inl e
            | Inr (c', chk, out) \<Rightarrow> Inr (if chk then c'\<lparr>background := True\<rparr> else c', out)))"

text \<open>
  The whole of \<open>getInput\<close>: print the prompt, read a line from the input stream into
  the local buffer \<open>input\<close> (line 85) and parse the buffer. The return value of
  \<open>fgets\<close> is not checked (line 92): at end of input the buffer keeps its indeterminate
  contents \<open>stale\<close> and they are parsed as if they had been read. The result carries the
  printed text and the rest of the stream.
\<close>

definition getInput :: "pid \<Rightarrow> string \<Rightarrow> string \<Rightarrow> cmd \<Rightarrow> tok_error + (cmd \<times> string \<times> string)" where
  "getInput pid stale inp c =
     (let (buf, rest) = (case fgets INPUTSIZE inp of None \<Rightarrow> (stale, inp) | Some line \<Rightarrow> line) in
      (case parse_line pid buf c of
         Inl e \<Rightarrow> Inl e
       | Inr (c', out) \<Rightarrow> Inr (c', '': '' @ out, rest)))"

subsection \<open>The argument vector\<close>

text \<open>
  \<open>execvp(data[0], data)\<close> reads the array up to its first NULL slot; the array has
  \<open>INPUTSIZE\<close> slots.
\<close>

fun argv_from :: "(nat \<Rightarrow> string option) \<Rightarrow> nat \<Rightarrow> nat \<Rightarrow> string list" where
  "argv_from d k 0 = []"
| "argv_from d k (Suc n) = (case d k of None \<Rightarrow> [] | Some a \<Rightarrow> a # argv_from d (Suc k) n)"

definition argv :: "cmd \<Rightarrow> string list" where
  "argv c = argv_from (data c) 0 INPUTSIZE"

subsection \<open>Reference functions and helpers\<close>

text \<open>
  \<open>subst_first\<close> is a structural reference for the expansion loop: replace the first
  \<open>$$\<close> and drop the rest of the token; \<open>first_pair\<close> finds that pair. \<open>subst_all\<close>
  is what the specification asks for: every non-overlapping \<open>$$\<close> replaced, the rest kept.
  \<open>join_words\<close> prints a token list back with single spaces. \<open>plain\<close> is a token that
  the loop copies as an argument; \<open>upd_range\<close> fills consecutive slots of the array.
\<close>

fun subst_first :: "string \<Rightarrow> string \<Rightarrow> string" where
  "subst_first p (a # b # cs) = (if a = CHR ''$'' \<and> b = CHR ''$'' then p else a # subst_first p (b # cs))"
| "subst_first p cs = cs"

fun first_pair :: "string \<Rightarrow> nat option" where
  "first_pair (a # b # cs) = (if a = CHR ''$'' \<and> b = CHR ''$'' then Some 0 else map_option Suc (first_pair (b # cs)))"
| "first_pair cs = None"

fun join_words :: "string list \<Rightarrow> string" where
  "join_words [] = []"
| "join_words [t] = t"
| "join_words (t # ts) = t @ CHR '' '' # join_words ts"

definition plain :: "string \<Rightarrow> bool" where
  "plain t \<longleftrightarrow> t \<noteq> ''&'' \<and> t \<noteq> ''<'' \<and> t \<noteq> ''>''"

definition upd_range :: "(nat \<Rightarrow> 'a option) \<Rightarrow> nat \<Rightarrow> 'a list \<Rightarrow> nat \<Rightarrow> 'a option" where
  "upd_range d i xs = (\<lambda>k. if i \<le> k \<and> k < i + length xs then Some (xs ! (k - i)) else d k)"

fun subst_all :: "string \<Rightarrow> string \<Rightarrow> string" where
  "subst_all p (a # b # cs) = (if a = CHR ''$'' \<and> b = CHR ''$'' then p @ subst_all p cs else a # subst_all p (b # cs))"
| "subst_all p cs = cs"

text \<open>
  The bytes of the expansion: \<open>strdup\<close> allocates the token and its NUL; \<open>strcat\<close>
  writes the pid and a NUL from the position of the first pair on.
\<close>

definition strdup_size :: "string \<Rightarrow> nat" where
  "strdup_size tok = length tok + 1"

definition expand_bytes_written :: "pid \<Rightarrow> string \<Rightarrow> nat" where
  "expand_bytes_written pid tok =
     (case first_pair tok of None \<Rightarrow> length tok + 1 | Some j \<Rightarrow> j + length (show_int pid) + 1)"

text \<open>
  A word that the tokenizer passes through unchanged: non-empty, not a special token,
  and free of the space delimiter, newline, NUL and \<open>$\<close>.
\<close>

definition plain_word :: "string \<Rightarrow> bool" where
  "plain_word w \<longleftrightarrow> w \<noteq> [] \<and> plain w \<and>
     (\<forall>c \<in> set w. c \<noteq> CHR '' '' \<and> c \<noteq> CHR ''\<newline>'' \<and> c \<noteq> CHR 0x00 \<and> c \<noteq> CHR ''$'')"

lemmas tokenizer_defs [model_simps] = INPUTSIZE_def MAX_ARGS_def empty_cmd_def fgets_def
  strip_newline_def strtok_next_def expand_pid_def max_args_msg_def parse_line_def getInput_def argv_def
  plain_def strdup_size_def expand_bytes_written_def

subsection \<open>Lemmas\<close>

declare expand_loop.simps [simp del] strtok_all.simps [simp del]

lemma strtok_all_None [simp]: "strtok_next s = None \<Longrightarrow> strtok_all s = []"
  by (subst strtok_all.simps) simp

lemma strtok_all_Some [simp]: "strtok_next s = Some (t, r) \<Longrightarrow> strtok_all s = t # strtok_all r"
  by (subst strtok_all.simps) simp

lemma strtok_next_Nil [simp]: "strtok_next [] = None"
  by (simp add: strtok_next_def)

lemma expand_loop_no_dollar: "CHR ''$'' \<notin> set (drop j buf) \<Longrightarrow> expand_loop pid buf j = buf"
proof (induction pid buf j rule: expand_loop.induct)
  case (1 pid buf j)
  show ?case
  proof (cases "j < length buf")
    case True
    then have dj: "drop j buf = buf ! j # drop (Suc j) buf" by (simp add: Cons_nth_drop_Suc)
    then have "buf ! j \<noteq> CHR ''$''" using "1.prems" by (metis list.set_intros(1))
    moreover have "CHR ''$'' \<notin> set (drop (Suc j) buf)" using "1.prems" dj by (metis list.set_intros(2))
    ultimately show ?thesis using True "1.IH"(2) by (subst expand_loop.simps) simp
  next
    case False
    then show ?thesis by (subst expand_loop.simps) simp
  qed
qed

lemma expand_loop_subst_first:
  "expand_loop pid buf j = take j buf @ subst_first (show_int pid) (drop j buf)"
proof (induction pid buf j rule: expand_loop.induct)
  case (1 pid buf j)
  show ?case
  proof (cases "j < length buf")
    case False
    then show ?thesis by (subst expand_loop.simps) simp
  next
    case True
    then have dj: "drop j buf = buf ! j # drop (Suc j) buf" by (simp add: Cons_nth_drop_Suc)
    show ?thesis
    proof (cases "buf ! j = CHR ''$'' \<and> Suc j < length buf \<and> buf ! Suc j = CHR ''$''")
      case pair: True
      then have "drop (Suc j) buf = buf ! Suc j # drop (Suc (Suc j)) buf" by (metis Cons_nth_drop_Suc)
      with dj pair have "subst_first (show_int pid) (drop j buf) = show_int pid" by simp
      moreover have "expand_loop pid (take j buf @ show_int pid) (Suc j) = take j buf @ show_int pid"
        using True by (intro expand_loop_no_dollar) (simp, metis dollar_notin_show_int in_set_dropD)
      ultimately show ?thesis using True pair by (subst expand_loop.simps) simp
    next
      case nopair: False
      have "subst_first (show_int pid) (buf ! j # drop (Suc j) buf) = buf ! j # subst_first (show_int pid) (drop (Suc j) buf)"
      proof (cases "drop (Suc j) buf")
        case Nil
        then show ?thesis by simp
      next
        case (Cons b cs)
        then have "buf ! Suc j = b" "Suc j < length buf"
          by (simp_all add: nth_via_drop) (metis drop_eq_Nil2 list.distinct(1) not_le_imp_less)
        with nopair Cons show ?thesis by auto
      qed
      then have "subst_first (show_int pid) (drop j buf) = buf ! j # subst_first (show_int pid) (drop (Suc j) buf)"
        by (simp only: dj)
      moreover have "take (Suc j) buf = take j buf @ [buf ! j]" using True by (simp add: take_Suc_conv_app_nth)
      moreover have "expand_loop pid buf j = expand_loop pid buf (Suc j)"
        by (subst expand_loop.simps) (simp only: if_P [OF True] if_not_P [OF nopair])
      ultimately show ?thesis using "1.IH"(2) [OF True nopair] by simp
    qed
  qed
qed

lemma subst_first_first_pair:
  "subst_first p tok = (case first_pair tok of None \<Rightarrow> tok | Some j \<Rightarrow> take j tok @ p)"
  by (induction p tok rule: subst_first.induct) (auto split: option.splits)

lemma strtok_next_word:
  assumes "t \<noteq> []" "CHR '' '' \<notin> set t"
  shows "strtok_next (t @ CHR '' '' # r) = Some (t, r)" "strtok_next t = Some (t, [])"
proof -
  have dw: "dropWhile (\<lambda>c. c = CHR '' '') (t @ xs) = t @ xs" for xs
    using assms by (cases t) auto
  have tw: "takeWhile (\<lambda>c. c \<noteq> CHR '' '') (t @ xs) = t @ takeWhile (\<lambda>c. c \<noteq> CHR '' '') xs"
    and dw': "dropWhile (\<lambda>c. c \<noteq> CHR '' '') (t @ xs) = dropWhile (\<lambda>c. c \<noteq> CHR '' '') xs" for xs
    using assms(2) by (induction t) auto
  have "takeWhile (\<lambda>c. c \<noteq> CHR '' '') (t @ CHR '' '' # r) = t"
       "dropWhile (\<lambda>c. c \<noteq> CHR '' '') (t @ CHR '' '' # r) = CHR '' '' # r"
    by (simp_all add: tw dw')
  then show "strtok_next (t @ CHR '' '' # r) = Some (t, r)"
    using dw [of "CHR '' '' # r"] assms(1) by (simp add: strtok_next_def)
  show "strtok_next t = Some (t, [])"
  proof -
    have a: "takeWhile (\<lambda>c. c \<noteq> CHR '' '') t = t" and b: "dropWhile (\<lambda>c. c \<noteq> CHR '' '') t = []"
      using assms(2) by (auto simp: takeWhile_eq_all_conv dropWhile_eq_Nil_conv)
    have c: "dropWhile (\<lambda>c. c = CHR '' '') t = t"
      using dw [of "[]"] by simp
    show ?thesis using assms(1) by (simp only: strtok_next_def Let_def a b c) simp
  qed
qed

lemma upd_range_Nil [simp]: "upd_range d i [] = d"
  by (rule ext) (auto simp: upd_range_def)

lemma upd_range_Cons: "upd_range d i (x # xs) = upd_range (d(i \<mapsto> x)) (Suc i) xs"
  by (rule ext) (auto simp: upd_range_def nth_Cons' Suc_diff_Suc)

lemma parse_loop_plain:
  "\<forall>t \<in> set ts. plain t \<Longrightarrow> i \<le> MAX_ARGS \<Longrightarrow>
   parse_loop pid ts c i chk =
     Inr (c\<lparr>data := upd_range (data c) i (map (expand_pid pid) (take (MAX_ARGS - i) ts))\<rparr>,
          (if ts = [] then chk else False),
          (if MAX_ARGS < i + length ts then max_args_msg else []))"
proof (induction ts arbitrary: c i chk)
  case Nil
  then show ?case by simp
next
  case (Cons tok toks)
  show ?case
  proof (cases "MAX_ARGS \<le> i")
    case True
    with Cons.prems have "i = MAX_ARGS" by simp
    then show ?thesis by simp
  next
    case False
    then have take: "take (MAX_ARGS - i) (tok # toks) = tok # take (MAX_ARGS - Suc i) toks"
      by (simp add: Suc_diff_Suc [symmetric])
    from Cons.prems False show ?thesis
      by (simp add: Cons.IH plain_def take upd_range_Cons del: fun_upd_apply)
  qed
qed

lemma parse_loop_below:
  "parse_loop pid ts c i chk = Inr (c', chk', out) \<Longrightarrow> k < i \<Longrightarrow> data c' k = data c k"
proof (induction pid ts c i chk rule: parse_loop.induct)
  case (1 pid c i chk)
  then show ?case by simp
next
  case (2 pid tok toks c i chk)
  consider (cap) "MAX_ARGS \<le> i" | (amp) "\<not> MAX_ARGS \<le> i" "tok = ''&''"
    | (inp) "\<not> MAX_ARGS \<le> i" "tok \<noteq> ''&''" "tok = ''<''"
    | (outp) "\<not> MAX_ARGS \<le> i" "tok \<noteq> ''&''" "tok \<noteq> ''<''" "tok = ''>''"
    | (arg) "\<not> MAX_ARGS \<le> i" "plain tok"
    by (auto simp only: plain_def)
  then show ?case
  proof cases
    case cap
    with "2.prems" show ?thesis by simp
  next
    case amp
    with "2.prems" show ?thesis by (intro "2.IH"(1)) simp_all
  next
    case inp
    show ?thesis
    proof (cases toks)
      case Nil
      with inp "2.prems" show ?thesis by simp
    next
      case (Cons f toks')
      with inp "2.prems" have "data c' k = data (c\<lparr>input_file := f\<rparr>) k"
        by (intro "2.IH"(3)) simp_all
      then show ?thesis by simp
    qed
  next
    case outp
    show ?thesis
    proof (cases toks)
      case Nil
      with outp "2.prems" show ?thesis by simp
    next
      case (Cons f toks')
      with outp "2.prems" have "data c' k = data (c\<lparr>output_file := f\<rparr>) k"
        by (intro "2.IH"(4)) simp_all
      then show ?thesis by simp
    qed
  next
    case arg
    with "2.prems" have "data c' k = data (c\<lparr>data := (data c)(i \<mapsto> expand_pid pid tok)\<rparr>) k"
      by (intro "2.IH"(5)) (simp_all add: plain_def)
    with "2.prems"(2) show ?thesis by simp
  qed
qed

lemma argv_from_prefix:
  "\<forall>j < length xs. d (k + j) = Some (xs ! j) \<Longrightarrow> d (k + length xs) = None \<Longrightarrow> length xs < m \<Longrightarrow>
   argv_from d k m = xs"
proof (induction xs arbitrary: k m)
  case Nil
  then show ?case by (cases m) simp_all
next
  case (Cons x xs)
  then obtain m' where m: "m = Suc m'" by (cases m) auto
  from Cons.prems have "d k = Some x" by (metis add_0_right length_Cons nth_Cons_0 zero_less_Suc)
  moreover have "\<forall>j < length xs. d (Suc k + j) = Some (xs ! j)"
  proof (intro allI impI)
    fix j
    assume "j < length xs"
    then have "Suc j < length (x # xs)" by simp
    with Cons.prems(1) have "d (k + Suc j) = Some ((x # xs) ! Suc j)" by blast
    then show "d (Suc k + j) = Some (xs ! j)" by simp
  qed
  then have "argv_from d (Suc k) m' = xs"
    using Cons.prems(2,3) m by (intro Cons.IH) simp_all
  ultimately show ?case by (simp add: m)
qed

lemma argv_upd_range:
  "length xs < INPUTSIZE \<Longrightarrow> argv (c\<lparr>data := upd_range Map.empty 0 xs\<rparr>) = xs"
  by (simp add: argv_def argv_from_prefix upd_range_def)


lemma first_pair_snoc_dollar:
  "first_pair (a @ [CHR ''$'']) = None \<Longrightarrow>
   subst_all p (a @ ''$$'') = a @ p \<and> first_pair (a @ ''$$'') = Some (length a)"
proof (induction a)
  case Nil
  then show ?case by simp
next
  case (Cons x a)
  then show ?case by (cases a) (auto split: if_splits)
qed

lemma show_nat_length_ge: "10 ^ k \<le> n \<Longrightarrow> k < length (show_nat n)"
proof (induction n arbitrary: k rule: show_nat.induct)
  case (1 n)
  show ?case
  proof (cases k)
    case 0
    then show ?thesis by simp
  next
    case (Suc k')
    with "1.prems" have "10 ^ k' * 10 \<le> n" by (simp add: mult.commute)
    then have ge: "10 \<le> n" "10 ^ k' \<le> n div 10"
      by (auto simp: less_eq_div_iff_mult_less_eq intro: order_trans [OF _ \<open>10 ^ k' * 10 \<le> n\<close>])
    with "1.IH" have "k' < length (show_nat (n div 10))" by simp
    with ge Suc show ?thesis by (subst show_nat.simps) simp
  qed
qed

lemma argv_from_nth: "argv_from d k m = xs \<Longrightarrow> j < length xs \<Longrightarrow> d (k + j) = Some (xs ! j)"
proof (induction d k m arbitrary: xs j rule: argv_from.induct)
  case (1 d k)
  then show ?case by simp
next
  case (2 d k n)
  then show ?case by (cases j) (auto split: option.splits)
qed

lemma argv_from_end: "argv_from d k m = xs \<Longrightarrow> length xs < m \<Longrightarrow> d (k + length xs) = None"
proof (induction d k m arbitrary: xs rule: argv_from.induct)
  case (1 d k)
  then show ?case by simp
next
  case (2 d k n)
  then show ?case by (auto split: option.splits)
qed

lemma argv_data:
  "argv c = xs \<Longrightarrow> j < length xs \<Longrightarrow> data c j = Some (xs ! j)"
  "argv c = xs \<Longrightarrow> length xs < INPUTSIZE \<Longrightarrow> data c (length xs) = None"
  using argv_from_nth [of "data c" 0 INPUTSIZE xs j] argv_from_end [of "data c" 0 INPUTSIZE xs]
  by (simp_all add: argv_def)

lemma argv_length: "length (argv c) \<le> INPUTSIZE"
proof -
  have "length (argv_from d k m) \<le> m" for d k m
    by (induction d k m rule: argv_from.induct) (auto split: option.splits)
  then show ?thesis by (simp add: argv_def)
qed

lemma fgets_chars_le: "length (snd (fgets_chars k s)) \<le> length s"
  by (induction k s rule: fgets_chars.induct) (auto simp: split_beta)

lemma fgets_consumes: "fgets n inp = Some (buf, rest) \<Longrightarrow> 2 \<le> n \<Longrightarrow> length rest < length inp"
proof -
  assume f: "fgets n inp = Some (buf, rest)" and n: "2 \<le> n"
  then obtain x xs where inp: "inp = x # xs" by (cases inp) (auto simp: fgets_def)
  from n have k: "n - 1 = Suc (n - 2)" by simp
  from f inp k have "fgets_chars (Suc (n - 2)) (x # xs) = (buf, rest)" by (simp add: fgets_def)
  then have "rest = (if x = CHR ''\<newline>'' then xs else snd (fgets_chars (n - 2) xs))"
    by (auto split: if_splits prod.splits)
  then show ?thesis using inp fgets_chars_le [of "n - 2" xs] by simp
qed

lemma getInput_consumes:
  "inp \<noteq> [] \<Longrightarrow> getInput pid stale inp c = Inr (c', out, rest) \<Longrightarrow> length rest < length inp"
proof -
  assume ne: "inp \<noteq> []" and r: "getInput pid stale inp c = Inr (c', out, rest)"
  from ne obtain buf where f: "fgets INPUTSIZE inp = Some (buf, rest)"
    using r by (auto simp: getInput_def fgets_def split: sum.splits prod.splits)
  show ?thesis by (rule fgets_consumes [OF f]) (simp add: INPUTSIZE_def)
qed

lemma getInput_eof:
  "getInput pid stale [] c =
     (case parse_line pid stale c of Inl e \<Rightarrow> Inl e | Inr (c', out) \<Rightarrow> Inr (c', '': '' @ out, []))"
  by (simp add: getInput_def fgets_def)

lemma subst_first_Cons: "x \<noteq> CHR ''$'' \<Longrightarrow> subst_first p (x # xs) = x # subst_first p xs"
  by (cases xs) auto

lemma expand_pid_subst_first: "expand_pid pid tok = subst_first (show_int pid) tok"
  by (simp add: expand_pid_def expand_loop_subst_first)

lemma parse_line_plain_cmd:
  assumes "strip_newline buf \<noteq> []" "\<forall>t \<in> set (strtok_all (strip_newline buf)). plain t"
  shows "parse_line pid buf empty_cmd =
           Inr (empty_cmd\<lparr>data := upd_range Map.empty 0 (map (expand_pid pid) (take MAX_ARGS (strtok_all (strip_newline buf))))\<rparr>,
                if MAX_ARGS < length (strtok_all (strip_newline buf)) then max_args_msg else [])"
  using assms by (simp add: parse_line_def parse_loop_plain empty_cmd_def)

lemma parse_loop_Cons_Inr:
  assumes "parse_loop pid (tok # toks) c i chk = Inr r"
  obtains (cap) "MAX_ARGS \<le> i" "r = (c, False, max_args_msg)"
    | (amp) "i < MAX_ARGS" "tok = ''&''" "parse_loop pid toks c (Suc i) True = Inr r"
    | (inp_none) "i < MAX_ARGS" "tok = ''<''" "toks = []" "r = (c, False, [])"
    | (inp) f toks' where "i < MAX_ARGS" "tok = ''<''" "toks = f # toks'"
        "parse_loop pid toks' (c\<lparr>input_file := f\<rparr>) (Suc i) False = Inr r"
    | (outp) f toks' where "i < MAX_ARGS" "tok = ''>''" "toks = f # toks'"
        "parse_loop pid toks' (c\<lparr>output_file := f\<rparr>) (Suc i) False = Inr r"
    | (arg) "i < MAX_ARGS" "plain tok"
        "parse_loop pid toks (c\<lparr>data := (data c)(i \<mapsto> expand_pid pid tok)\<rparr>) (Suc i) False = Inr r"
  using assms by (cases toks) (auto simp: plain_def split: if_splits)

lemma parse_loop_chk:
  "parse_loop pid ts c i chk = Inr (c', chk', out) \<Longrightarrow>
   background c' = background c \<and> (chk' \<longrightarrow> (ts = [] \<and> chk) \<or> (ts \<noteq> [] \<and> last ts = ''&''))"
proof (induction ts arbitrary: c i chk rule: length_induct)
  case (1 ts)
  show ?case
  proof (cases ts)
    case Nil
    with "1.prems" show ?thesis by simp
  next
    case (Cons tok toks)
    from "1.prems" [unfolded Cons] show ?thesis
    proof (cases rule: parse_loop_Cons_Inr)
      case cap
      then show ?thesis by simp
    next
      case amp
      have "length toks < length ts" using Cons by simp
      from "1.IH" [rule_format, OF this amp(3)] amp Cons show ?thesis by auto
    next
      case inp_none
      then show ?thesis by simp
    next
      case (inp f toks')
      have "length toks' < length ts" using Cons inp by simp
      from "1.IH" [rule_format, OF this inp(4)] inp Cons show ?thesis by auto
    next
      case (outp f toks')
      have "length toks' < length ts" using Cons outp by simp
      from "1.IH" [rule_format, OF this outp(4)] outp Cons show ?thesis by auto
    next
      case arg
      have "length toks < length ts" using Cons by simp
      from "1.IH" [rule_format, OF this arg(3)] arg Cons show ?thesis by auto
    qed
  qed
qed

lemma parse_loop_append_plain:
  "\<forall>t \<in> set args. plain t \<Longrightarrow> i + length args \<le> MAX_ARGS \<Longrightarrow>
   parse_loop pid (args @ ts) c i chk =
     parse_loop pid ts (c\<lparr>data := upd_range (data c) i (map (expand_pid pid) args)\<rparr>) (i + length args)
       (if args = [] then chk else False)"
proof (induction args arbitrary: c i chk)
  case Nil
  then show ?case by simp
next
  case (Cons a args)
  then show ?case by (simp add: plain_def upd_range_Cons del: fun_upd_apply)
qed

lemma fgets_chars_line:
  "CHR ''\<newline>'' \<notin> set l \<Longrightarrow> length l < k \<Longrightarrow>
   fgets_chars k (l @ CHR ''\<newline>'' # rest) = (l @ [CHR ''\<newline>''], rest)"
proof (induction l arbitrary: k)
  case Nil
  then show ?case by (cases k) simp_all
next
  case (Cons c l)
  then obtain k' where "k = Suc k'" by (cases k) auto
  with Cons show ?case by auto
qed

lemma fgets_line:
  "CHR ''\<newline>'' \<notin> set l \<Longrightarrow> length l < INPUTSIZE - 1 \<Longrightarrow>
   fgets INPUTSIZE (l @ CHR ''\<newline>'' # rest) = Some (l @ [CHR ''\<newline>''], rest)"
  by (simp add: fgets_def fgets_chars_line)

lemma strip_newline_line:
  "CHR ''\<newline>'' \<notin> set l \<Longrightarrow> CHR 0x00 \<notin> set l \<Longrightarrow> strip_newline (l @ [CHR ''\<newline>'']) = l"
proof -
  assume nl: "CHR ''\<newline>'' \<notin> set l" and nul: "CHR 0x00 \<notin> set l"
  have "map (\<lambda>c. if c = CHR ''\<newline>'' then CHR 0x00 else c) l = l"
    using nl by (induction l) auto
  moreover have "\<forall>x \<in> set l. x \<noteq> CHR 0x00" using nul by blast
  ultimately show ?thesis by (simp add: strip_newline_def cstr_def)
qed

lemma set_join_words: "set (join_words ws) \<subseteq> \<Union> (set ` set ws) \<union> {CHR '' ''}"
  by (induction ws rule: join_words.induct) auto

lemma join_words_nonempty: "w \<noteq> [] \<Longrightarrow> join_words (w # ws) \<noteq> []"
  by (cases ws) auto

lemma expand_pid_no_dollar: "CHR ''$'' \<notin> set t \<Longrightarrow> expand_pid pid t = t"
  by (simp add: expand_pid_def expand_loop_no_dollar)

lemma strtok_join_words:
  "\<forall>t \<in> set ts. t \<noteq> [] \<and> CHR '' '' \<notin> set t \<Longrightarrow> strtok_all (join_words ts) = ts"
proof (induction ts rule: join_words.induct)
  case 1
  then show ?case by simp
next
  case (2 t)
  then have "strtok_next t = Some (t, [])" by (simp add: strtok_next_word(2))
  then show ?case by simp
next
  case (3 t u ts)
  then show ?case by (simp add: strtok_next_word(1))
qed

lemma getInput_words:
  assumes ws: "\<forall>w \<in> set ws. plain_word w" "ws \<noteq> []" "length ws \<le> MAX_ARGS"
    and len: "length (join_words ws) < INPUTSIZE - 1"
  shows "getInput pid stale (join_words ws @ CHR ''\<newline>'' # rest) empty_cmd =
           Inr (empty_cmd\<lparr>data := upd_range Map.empty 0 ws\<rparr>, '': '', rest)"
proof -
  let ?l = "join_words ws"
  have chars: "c \<in> set ?l \<Longrightarrow> c \<noteq> CHR ''\<newline>'' \<and> c \<noteq> CHR 0x00" for c
  proof -
    assume "c \<in> set ?l"
    then consider "c = CHR '' ''" | w where "w \<in> set ws" "c \<in> set w" using set_join_words [of ws] by blast
    then show ?thesis
    proof cases
      case 1
      then show ?thesis by simp
    next
      case 2
      with ws(1) show ?thesis unfolding plain_word_def by blast
    qed
  qed
  have nl: "CHR ''\<newline>'' \<notin> set ?l" and nul: "CHR 0x00 \<notin> set ?l" using chars by blast+
  have strip: "strip_newline (?l @ [CHR ''\<newline>'']) = ?l" by (rule strip_newline_line [OF nl nul])
  have toks: "strtok_all ?l = ws"
    using ws(1) by (intro strtok_join_words) (auto simp: plain_word_def)
  have ne: "?l \<noteq> []" using ws(1,2) by (cases ws) (auto simp: join_words_nonempty plain_word_def)
  have exp: "map (expand_pid pid) ws = ws"
  proof (rule map_idI)
    fix w assume "w \<in> set ws"
    with ws(1) have "CHR ''$'' \<notin> set w" unfolding plain_word_def by blast
    then show "expand_pid pid w = w" by (rule expand_pid_no_dollar)
  qed
  have pl: "\<forall>t \<in> set (strtok_all (strip_newline (?l @ [CHR ''\<newline>'']))). plain t"
    using ws(1) by (simp add: strip toks plain_word_def)
  show ?thesis
    using parse_line_plain_cmd [OF _ pl, of pid] ne ws(3) fgets_line [OF nl len, of rest]
    by (simp add: getInput_def strip toks exp)
qed


lemma upd_range_single: "upd_range Map.empty 0 [w] = [0 \<mapsto> w]"
  by (rule ext) (simp add: upd_range_def)

lemma getInput_word:
  "plain_word w \<Longrightarrow> length w < INPUTSIZE - 1 \<Longrightarrow>
   getInput pid stale (w @ CHR ''\<newline>'' # rest) empty_cmd = Inr (empty_cmd\<lparr>data := [0 \<mapsto> w]\<rparr>, '': '', rest)"
  using getInput_words [of "[w]" pid stale rest] by (simp add: upd_range_single MAX_ARGS_def)

text \<open>
  C4: A line whose tokens are all ordinary arguments parses, from the cleared command
  \<open>main\<close> passes in, into the argument vector of the first 512 tokens, each with its
  \<open>$$\<close> expanded, with no redirection and in the foreground; the cap message is printed
  exactly when the line has more than 512 tokens.
\<close>

theorem parse_line_plain:
  assumes line: "strip_newline buf \<noteq> []"
    and toks: "\<forall>t \<in> set (strtok_all (strip_newline buf)). plain t"
  shows "\<exists>c. parse_line pid buf empty_cmd =
               Inr (c, if MAX_ARGS < length (strtok_all (strip_newline buf)) then max_args_msg else [])
           \<and> argv c = map (expand_pid pid) (take MAX_ARGS (strtok_all (strip_newline buf)))
           \<and> input_file c = [] \<and> output_file c = [] \<and> \<not> background c"
proof -
  let ?c = "empty_cmd\<lparr>data := upd_range Map.empty 0 (map (expand_pid pid) (take MAX_ARGS (strtok_all (strip_newline buf))))\<rparr>"
  have "argv ?c = map (expand_pid pid) (take MAX_ARGS (strtok_all (strip_newline buf)))"
    by (rule argv_upd_range) (simp add: MAX_ARGS_def INPUTSIZE_def)
  with parse_line_plain_cmd [OF line toks] show ?thesis by (auto simp: empty_cmd_def)
qed

theorem parse_line_plain_witness:
  "strip_newline ''ls -l $$\<newline>'' \<noteq> [] \<and> list_all plain (strtok_all (strip_newline ''ls -l $$\<newline>''))
   \<and> (\<exists>c. parse_line 1234 ''ls -l $$\<newline>'' empty_cmd = Inr (c, [])
        \<and> argv c = [''ls'', ''-l'', ''1234''] \<and> input_file c = [] \<and> output_file c = [] \<and> \<not> background c)"
proof -
  have h: "strip_newline ''ls -l $$\<newline>'' \<noteq> []" "\<forall>t \<in> set (strtok_all (strip_newline ''ls -l $$\<newline>'')). plain t"
    by code_simp+
  have e: "strtok_all (strip_newline ''ls -l $$\<newline>'') = [''ls'', ''-l'', ''$$'']" by code_simp
  have x: "map (expand_pid 1234) (take MAX_ARGS [''ls'', ''-l'', ''$$'']) = [''ls'', ''-l'', ''1234'']" by code_simp
  show ?thesis using parse_line_plain [OF h, of 1234] h unfolding e x by (simp add: MAX_ARGS_def list_all_iff)
qed

text \<open>
  C5: The argument vector ends at the first redirection: after ordinary arguments, a
  \<open><\<close> or \<open>>\<close> leaves its own slot of \<open>data\<close> NULL, so \<open>execvp\<close> sees only the arguments
  before it, whatever tokens follow the path.
\<close>

theorem argv_stops_at_redirect:
  assumes args: "\<forall>t \<in> set args. plain t" "length args < MAX_ARGS"
    and r: "r = ''<'' \<or> r = ''>''"
    and run: "parse_loop pid (args @ r # f # rest) empty_cmd 0 False = Inr (c, chk, out)"
  shows "argv c = map (expand_pid pid) args"
proof -
  let ?d = "upd_range Map.empty 0 (map (expand_pid pid) args)"
  let ?c1 = "empty_cmd\<lparr>data := ?d\<rparr>"
  have "parse_loop pid (r # f # rest) ?c1 (length args) False = Inr (c, chk, out)"
    using run args by (simp add: parse_loop_append_plain empty_cmd_def)
  then obtain c2 where "parse_loop pid rest c2 (Suc (length args)) False = Inr (c, chk, out)"
    and "data c2 = ?d"
    using r args(2) by (auto split: if_splits)
  then have "data c k = ?d k" if "k < Suc (length args)" for k
    using that by (metis parse_loop_below)
  then show ?thesis
    using args(2) by (intro argv_from_prefix [of _ "data c" 0 INPUTSIZE, folded argv_def])
      (auto simp: upd_range_def MAX_ARGS_def INPUTSIZE_def)
qed

theorem argv_stops_at_redirect_witness:
  "\<exists>c chk out. parse_loop 1 ([''cat'', ''-n''] @ ''<'' # ''in'' # [''-v'']) empty_cmd 0 False = Inr (c, chk, out)
     \<and> argv c = [''cat'', ''-n'']"
proof -
  have h: "\<forall>t \<in> set [''cat'', ''-n'']. plain t" "length [''cat'', ''-n''] < MAX_ARGS" "''<'' = ''<'' \<or> ''<'' = ''>''"
    by code_simp+
  have "case parse_loop 1 ([''cat'', ''-n''] @ ''<'' # ''in'' # [''-v'']) empty_cmd 0 False of Inl _ \<Rightarrow> False | Inr _ \<Rightarrow> True"
    by code_simp
  then obtain c chk out where r: "parse_loop 1 ([''cat'', ''-n''] @ ''<'' # ''in'' # [''-v'']) empty_cmd 0 False = Inr (c, chk, out)"
    by (auto split: sum.splits)
  have "argv c = map (expand_pid 1) [''cat'', ''-n'']" by (rule argv_stops_at_redirect [OF h r])
  moreover have "map (expand_pid 1) [''cat'', ''-n''] = [''cat'', ''-n'']" by code_simp
  ultimately show ?thesis using r by auto
qed

text \<open>
  C6: \<open>getInput\<close> sets the background flag only when the last token of the line is
  \<open>&\<close>: a \<open>&\<close> followed by any further token is dropped without effect.
\<close>

theorem background_needs_final_amp:
  assumes run: "parse_line pid buf empty_cmd = Inr (c, out)" and bg: "background c"
  shows "strtok_all (strip_newline buf) \<noteq> [] \<and> last (strtok_all (strip_newline buf)) = ''&''"
proof (cases "strip_newline buf = []")
  case True
  with run bg show ?thesis by (auto simp: parse_line_def empty_cmd_def)
next
  case False
  with run obtain c' chk where loop: "parse_loop pid (strtok_all (strip_newline buf)) empty_cmd 0 False = Inr (c', chk, out)"
    and c: "c = (if chk then c'\<lparr>background := True\<rparr> else c')"
    by (auto simp: parse_line_def split: sum.splits)
  from parse_loop_chk [OF loop] have "background c' = False"
    and "chk \<longrightarrow> strtok_all (strip_newline buf) \<noteq> [] \<and> last (strtok_all (strip_newline buf)) = ''&''"
    by (auto simp: empty_cmd_def)
  with c bg show ?thesis by (auto split: if_splits)
qed

theorem background_needs_final_amp_witness:
  "\<exists>c out. parse_line 7 ''sleep 5 &\<newline>'' empty_cmd = Inr (c, out) \<and> background c
     \<and> strtok_all (strip_newline ''sleep 5 &\<newline>'') \<noteq> [] \<and> last (strtok_all (strip_newline ''sleep 5 &\<newline>'')) = ''&''"
proof -
  have "case parse_line 7 ''sleep 5 &\<newline>'' empty_cmd of Inl _ \<Rightarrow> False | Inr (c, _) \<Rightarrow> background c"
    by code_simp
  then obtain c out where r: "parse_line 7 ''sleep 5 &\<newline>'' empty_cmd = Inr (c, out)" and b: "background c"
    by (auto split: sum.splits)
  show ?thesis using background_needs_final_amp [OF r b] r b by blast
qed

text \<open>
  C7: A line of ordinary arguments followed by a final \<open>&\<close> runs in the background with
  exactly those arguments and prints nothing.
\<close>

theorem background_final_amp:
  assumes toks: "strtok_all (strip_newline buf) = args @ [''&'']"
    and args: "\<forall>t \<in> set args. plain t" "length args < MAX_ARGS"
  shows "\<exists>c. parse_line pid buf empty_cmd = Inr (c, []) \<and> background c
              \<and> argv c = map (expand_pid pid) args"
proof -
  let ?c = "empty_cmd\<lparr>data := upd_range Map.empty 0 (map (expand_pid pid) args)\<rparr>"
  have line: "strip_newline buf \<noteq> []" using toks by auto
  have "parse_loop pid (args @ [''&'']) empty_cmd 0 False = Inr (?c, True, [])"
    using args by (simp add: parse_loop_append_plain empty_cmd_def)
  moreover have "argv ?c = map (expand_pid pid) args"
    using args(2) by (intro argv_upd_range) (simp add: MAX_ARGS_def INPUTSIZE_def)
  ultimately show ?thesis using line toks by (auto simp: parse_line_def empty_cmd_def argv_def)
qed

theorem background_final_amp_witness:
  "strtok_all (strip_newline ''sleep 5 &\<newline>'') = [''sleep'', ''5''] @ [''&'']
   \<and> (\<exists>c. parse_line 7 ''sleep 5 &\<newline>'' empty_cmd = Inr (c, []) \<and> background c \<and> argv c = [''sleep'', ''5''])"
proof -
  have h: "strtok_all (strip_newline ''sleep 5 &\<newline>'') = [''sleep'', ''5''] @ [''&'']"
    "\<forall>t \<in> set [''sleep'', ''5'']. plain t" "length [''sleep'', ''5''] < MAX_ARGS"
    by code_simp+
  have x: "map (expand_pid 7) [''sleep'', ''5''] = [''sleep'', ''5'']" by code_simp
  show ?thesis using background_final_amp [OF h, of 7] h(1) unfolding x by blast
qed

lemma final_output_redirect_crashes:
  assumes toks: "strtok_all (strip_newline buf) = args @ [''>'']"
    and args: "\<forall>t \<in> set args. plain t" "length args < MAX_ARGS"
  shows "parse_line pid buf c = Inl Null_output_path"
proof -
  have line: "strip_newline buf \<noteq> []" using toks by auto
  have "parse_loop pid (args @ [''>'']) c 0 False = Inl Null_output_path"
    using args by (simp add: parse_loop_append_plain)
  then show ?thesis using line toks by (simp add: parse_line_def)
qed

text \<open>
  C12: The expansion loop replaces the first \<open>$$\<close> of a token by the pid and drops
  everything after it: \<open>strcat\<close> appends the pid at the first NUL, which the pair has
  just written, so the rest of the token is cut off.
\<close>

theorem expand_pid_first_pair:
  "expand_pid pid tok = (case first_pair tok of None \<Rightarrow> tok | Some j \<Rightarrow> take j tok @ show_int pid)"
  by (simp add: expand_pid_subst_first subst_first_first_pair)

theorem expand_pid_first_pair_witness:
  "expand_pid 1234 ''a$$b$$c'' = (case first_pair ''a$$b$$c'' of None \<Rightarrow> ''a$$b$$c'' | Some j \<Rightarrow> take j ''a$$b$$c'' @ show_int 1234)
   \<and> expand_pid 1234 ''a$$b$$c'' = ''a1234''"
  using expand_pid_first_pair [of 1234 "''a$$b$$c''"] by code_simp

text \<open>
  C25: When the only \<open>$$\<close> of a token is at its end, the expansion agrees with the
  substitution of every pair that the specification asks for.
\<close>

theorem expand_pid_final_pair_meets_spec:
  assumes "first_pair (a @ [CHR ''$'']) = None"
  shows "expand_pid pid (a @ ''$$'') = subst_all (show_int pid) (a @ ''$$'')"
proof -
  from first_pair_snoc_dollar [OF assms]
  have "subst_all (show_int pid) (a @ ''$$'') = a @ show_int pid" "first_pair (a @ ''$$'') = Some (length a)"
    by blast+
  then show ?thesis by (simp add: expand_pid_subst_first subst_first_first_pair)
qed

theorem expand_pid_final_pair_meets_spec_witness:
  "first_pair (''echo'' @ [CHR ''$'']) = None
   \<and> expand_pid 1234 (''echo'' @ ''$$'') = subst_all (show_int 1234) (''echo'' @ ''$$'')"
proof -
  have h: "first_pair (''echo'' @ [CHR ''$'']) = None" by code_simp
  show ?thesis using expand_pid_final_pair_meets_spec [OF h] h by blast
qed

text \<open>
  C24: For a pid of three or more digits, expanding the token \<open>$$\<close> writes more bytes
  than \<open>strdup\<close> allocated for it: \<open>strcat\<close> overflows the heap buffer.
\<close>

theorem dollar_token_overflows:
  assumes "100 \<le> pid"
  shows "strdup_size ''$$'' < expand_bytes_written pid ''$$''"
proof -
  from assms have "10 ^ 2 \<le> nat pid" by simp
  then have "2 < length (show_int pid)"
    using assms by (simp add: show_int_def show_nat_length_ge)
  then show ?thesis by (simp add: strdup_size_def expand_bytes_written_def)
qed

theorem dollar_token_overflows_witness:
  "100 \<le> (1234::pid) \<and> strdup_size ''$$'' < expand_bytes_written 1234 ''$$''"
  using dollar_token_overflows [of 1234] by simp

end
