(* ===== verification/CommandSpec.thy ===== *)
theory CommandSpec
  imports Tokenizer
begin

text \<open>
  The tokenizer contract of the specification as an abstract function on token lists, and
  the refinement theorem relating \<open>parse_line\<close> (the body of \<open>getInput\<close> in
  src/driver.c, lines 94--162) to it through an abstraction of the C command record. The
  refinement holds for lines in the specification's canonical form (arguments, then
  redirections, then an optional \<open>&\<close>); the tokenizer theory shows where the code departs
  from the contract outside it (interleaved arguments, \<open>$$\<close> in mid-token, a dangling
  \<open>>\<close>).
\<close>

text \<open>
  The command record of the specification (section 3): the argument vector, optional
  input and output paths and the background flag.
\<close>

record command =
  args :: "string list"
  in_path :: "string option"
  out_path :: "string option"
  bg :: bool

definition no_command :: command where
  "no_command = \<lparr>args = [], in_path = None, out_path = None, bg = False\<rparr>"

text \<open>
  The tokenizer contract of section 4.1, token by token: \<open><\<close> and \<open>>\<close> take the next
  token as their path (a dangling one is ignored), \<open>&\<close> sets the background flag only as
  the last token and is dropped elsewhere (the policy the specification leaves open), and
  every other token is an argument with each non-overlapping \<open>$$\<close> replaced by the pid.
\<close>

fun spec_tokens :: "pid \<Rightarrow> string list \<Rightarrow> command \<Rightarrow> command" where
  "spec_tokens pid [] c = c"
| "spec_tokens pid [t] c =
     (if t = ''&'' then c\<lparr>bg := True\<rparr>
      else if t = ''<'' \<or> t = ''>'' then c
      else c\<lparr>args := args c @ [subst_all (show_int pid) t]\<rparr>)"
| "spec_tokens pid (t # u # ts) c =
     (if t = ''&'' then spec_tokens pid (u # ts) c
      else if t = ''<'' then spec_tokens pid ts (c\<lparr>in_path := Some u\<rparr>)
      else if t = ''>'' then spec_tokens pid ts (c\<lparr>out_path := Some u\<rparr>)
      else spec_tokens pid (u # ts) (c\<lparr>args := args c @ [subst_all (show_int pid) t]\<rparr>))"

text \<open>
  The abstraction of the C command: the vector \<open>execvp\<close> reads, an empty path buffer as
  no path.
\<close>

definition abs_cmd :: "cmd \<Rightarrow> command" where
  "abs_cmd c = \<lparr>args = argv c, in_path = (if input_file c = [] then None else Some (input_file c)),
                out_path = (if output_file c = [] then None else Some (output_file c)), bg = background c\<rparr>"

text \<open>A sequence of redirections \<open>op path\<close>, and the path the last one with \<open>op\<close> names.\<close>

definition redir_toks :: "(string \<times> string) list \<Rightarrow> string list" where
  "redir_toks rs = concat (map (\<lambda>(r, f). [r, f]) rs)"

definition last_path :: "string \<Rightarrow> (string \<times> string) list \<Rightarrow> string option \<Rightarrow> string option" where
  "last_path r rs d = fold (\<lambda>(r', f) d. if r' = r then Some f else d) rs d"

subsection \<open>Lemmas\<close>

lemma subst_all_no_pair: "first_pair t = None \<Longrightarrow> subst_all p t = t"
  by (induction p t rule: subst_all.induct) (auto split: if_splits)

lemma expand_pid_no_pair: "first_pair t = None \<Longrightarrow> expand_pid pid t = t"
  by (simp add: expand_pid_subst_first subst_first_first_pair)

lemma redir_toks_Cons [simp]: "redir_toks ((r, f) # rs) = r # f # redir_toks rs"
  by (simp add: redir_toks_def)

lemma redir_toks_Nil [simp]: "redir_toks [] = []"
  by (simp add: redir_toks_def)

lemma last_path_Cons [simp]:
  "last_path r ((r', f) # rs) d = last_path r rs (if r' = r then Some f else d)"
  by (simp add: last_path_def)

lemma last_path_Nil [simp]: "last_path r [] d = d"
  by (simp add: last_path_def)

lemma last_path_default:
  "last_path r rs d = (case last_path r rs None of None \<Rightarrow> d | Some p \<Rightarrow> Some p)"
proof (induction rs arbitrary: d)
  case Nil
  then show ?case by simp
next
  case (Cons rf rs)
  obtain r0 f where rf: "rf = (r0, f)" by (cases rf)
  have a: "last_path r rs (if r0 = r then Some f else d)
        = (case last_path r rs None of None \<Rightarrow> (if r0 = r then Some f else d) | Some p \<Rightarrow> Some p)"
    by (rule Cons.IH)
  have b: "last_path r rs (if r0 = r then Some f else None)
        = (case last_path r rs None of None \<Rightarrow> (if r0 = r then Some f else None) | Some p \<Rightarrow> Some p)"
    by (rule Cons.IH)
  show ?case by (simp only: rf last_path_Cons a b) (auto split: option.splits)
qed

lemma parse_loop_redirs:
  "\<forall>(r, f) \<in> set rs. r = ''<'' \<or> r = ''>'' \<Longrightarrow> i + length rs \<le> MAX_ARGS \<Longrightarrow>
   parse_loop pid (redir_toks rs @ ts) c i chk =
     parse_loop pid ts (c\<lparr>input_file := case_option (input_file c) id (last_path ''<'' rs None),
                          output_file := case_option (output_file c) id (last_path ''>'' rs None)\<rparr>)
       (i + length rs) (if rs = [] then chk else False)"
proof (induction rs arbitrary: c i chk)
  case Nil
  then show ?case by simp
next
  case (Cons rf rs)
  obtain r f where rf: "rf = (r, f)" by (cases rf)
  with Cons.prems have r: "r = ''<'' \<or> r = ''>''" by auto
  have step: "parse_loop pid (redir_toks (rf # rs) @ ts) c i chk =
      parse_loop pid (redir_toks rs @ ts) (if r = ''<'' then c\<lparr>input_file := f\<rparr> else c\<lparr>output_file := f\<rparr>) (Suc i) False"
    using Cons.prems(2) r by (auto simp: rf)
  have ih: "\<forall>(r, f) \<in> set rs. r = ''<'' \<or> r = ''>''" "Suc i + length rs \<le> MAX_ARGS"
    using Cons.prems by auto
  have d: "last_path r' rs (Some f) = (case last_path r' rs None of None \<Rightarrow> Some f | Some p \<Rightarrow> Some p)" for r'
    by (rule last_path_default)
  show ?case
    unfolding step Cons.IH [OF ih] using r
    by (auto simp: rf d split: option.splits)
qed


lemma spec_tokens_args:
  "\<forall>t \<in> set as. plain t \<Longrightarrow>
   spec_tokens pid (as @ ts) c = spec_tokens pid ts (c\<lparr>args := args c @ map (subst_all (show_int pid)) as\<rparr>)"
proof (induction as arbitrary: c)
  case Nil
  then show ?case by simp
next
  case (Cons a as)
  then have a: "a \<noteq> ''&''" "a \<noteq> ''<''" "a \<noteq> ''>''" by (auto simp: plain_def)
  show ?case
  proof (cases "as @ ts")
    case Nil
    with a show ?thesis by simp
  next
    case (Cons u rest)
    with a \<open>as @ ts = u # rest\<close> Cons.IH [of "c\<lparr>args := args c @ [subst_all (show_int pid) a]\<rparr>"] Cons.prems
    show ?thesis by (simp del: spec_tokens.simps(2,3)) (simp add: a)
  qed
qed

lemma spec_tokens_redirs:
  "\<forall>(r, f) \<in> set rs. r = ''<'' \<or> r = ''>'' \<Longrightarrow>
   spec_tokens pid (redir_toks rs @ ts) c =
     spec_tokens pid ts (c\<lparr>in_path := case_option (in_path c) Some (last_path ''<'' rs None),
                          out_path := case_option (out_path c) Some (last_path ''>'' rs None)\<rparr>)"
proof (induction rs arbitrary: c)
  case Nil
  then show ?case by simp
next
  case (Cons rf rs)
  obtain r f where rf: "rf = (r, f)" by (cases rf)
  with Cons.prems have r: "r = ''<'' \<or> r = ''>''" by auto
  have d: "last_path r' rs (Some f) = (case last_path r' rs None of None \<Rightarrow> Some f | Some p \<Rightarrow> Some p)" for r'
    by (rule last_path_default)
  have "spec_tokens pid (redir_toks (rf # rs) @ ts) c =
        spec_tokens pid (redir_toks rs @ ts) (if r = ''<'' then c\<lparr>in_path := Some f\<rparr> else c\<lparr>out_path := Some f\<rparr>)"
    using r by (auto simp: rf)
  also have "\<dots> = spec_tokens pid ts (c\<lparr>in_path := case_option (in_path c) Some (last_path ''<'' (rf # rs) None),
                          out_path := case_option (out_path c) Some (last_path ''>'' (rf # rs) None)\<rparr>)"
    using Cons.IH Cons.prems r by (auto simp: rf d split: option.splits)
  finally show ?case .
qed

lemma last_path_nonempty:
  "\<forall>(r, f) \<in> set rs. f \<noteq> [] \<Longrightarrow> (\<forall>q. d = Some q \<longrightarrow> q \<noteq> []) \<Longrightarrow> last_path r' rs d = Some p \<Longrightarrow> p \<noteq> []"
proof (induction rs arbitrary: d)
  case Nil
  then show ?case by simp
next
  case (Cons rf rs)
  then show ?case by (cases rf) (fastforce split: if_splits)
qed

lemma abs_path:
  assumes "\<forall>(r, f) \<in> set rs. f \<noteq> []"
  shows "(if case_option [] id (last_path r rs None) = [] then None else Some (case_option [] id (last_path r rs None)))
         = last_path r rs None"
proof (cases "last_path r rs None")
  case None
  then show ?thesis by simp
next
  case (Some p)
  with last_path_nonempty [OF assms _ Some] show ?thesis by simp
qed

lemma abs_cmd_background: "abs_cmd (c\<lparr>background := True\<rparr>) = (abs_cmd c)\<lparr>bg := True\<rparr>"
  by (simp add: abs_cmd_def argv_def)

text \<open>
  C8: Refinement of the tokenizer contract: for a line of arguments without \<open>$$\<close>,
  followed by any sequence of redirections with non-empty paths and an optional final
  \<open>&\<close>, within the cap, \<open>getInput\<close>'s parse yields, under the abstraction, exactly the
  command the specification's tokenizer computes, and prints nothing.
\<close>

theorem parse_line_refines_spec:
  assumes toks: "strtok_all (strip_newline buf) = as @ redir_toks rs @ amp"
    and as: "as \<noteq> []" "\<forall>t \<in> set as. plain t \<and> first_pair t = None"
    and rs: "\<forall>(r, f) \<in> set rs. (r = ''<'' \<or> r = ''>'') \<and> f \<noteq> []"
    and amp: "amp = [] \<or> amp = [''&'']"
    and cap: "length as + length rs + length amp \<le> MAX_ARGS"
  shows "\<exists>c. parse_line pid buf empty_cmd = Inr (c, []) \<and>
             abs_cmd c = spec_tokens pid (as @ redir_toks rs @ amp) no_command"
proof -
  have pl: "\<forall>t \<in> set as. plain t" using as(2) by blast
  have rr: "\<forall>(r, f) \<in> set rs. r = ''<'' \<or> r = ''>''" and rf: "\<forall>(r, f) \<in> set rs. f \<noteq> []"
    using rs by auto
  have ex: "map (expand_pid pid) as = as" "map (subst_all (show_int pid)) as = as"
    using as(2) by (simp_all add: expand_pid_no_pair subst_all_no_pair map_idI)
  let ?c2 = "empty_cmd\<lparr>data := upd_range Map.empty 0 as,
                input_file := case_option [] id (last_path ''<'' rs None),
                output_file := case_option [] id (last_path ''>'' rs None)\<rparr>"
  have loop: "parse_loop pid (as @ redir_toks rs @ amp) empty_cmd 0 False =
              parse_loop pid amp ?c2 (length as + length rs) False"
    using cap pl as(1) by (simp add: parse_loop_append_plain parse_loop_redirs [OF rr] ex empty_cmd_def option.case_eq_if)
  have argv: "argv ?c2 = as"
    using argv_upd_range [of as "empty_cmd\<lparr>input_file := case_option [] id (last_path ''<'' rs None),
                output_file := case_option [] id (last_path ''>'' rs None)\<rparr>"] cap
    by (simp add: argv_def MAX_ARGS_def INPUTSIZE_def)
  have spec: "spec_tokens pid (as @ redir_toks rs @ amp) no_command =
              spec_tokens pid amp (no_command\<lparr>args := as, in_path := last_path ''<'' rs None,
                                             out_path := last_path ''>'' rs None\<rparr>)"
    using pl by (simp add: spec_tokens_args spec_tokens_redirs [OF rr] ex no_command_def option.case_eq_if)
  have line: "strip_newline buf \<noteq> []" using toks as(1) by auto
  have absc: "abs_cmd ?c2 = \<lparr>args = as, in_path = last_path ''<'' rs None,
                              out_path = last_path ''>'' rs None, bg = False\<rparr>"
  proof -
    have i: "input_file ?c2 = case_option [] id (last_path ''<'' rs None)"
      and o: "output_file ?c2 = case_option [] id (last_path ''>'' rs None)"
      and b: "background ?c2 = False" by (simp_all add: empty_cmd_def)
    show ?thesis unfolding abs_cmd_def i o b argv abs_path [OF rf] ..
  qed
  from amp show ?thesis
  proof
    assume "amp = []"
    then show ?thesis using line toks loop spec absc
      by (simp add: parse_line_def no_command_def)
  next
    assume "amp = [''&'']"
    moreover have "length as + length rs < MAX_ARGS" using cap \<open>amp = [''&'']\<close> by simp
    ultimately show ?thesis using line toks loop spec absc
      by (simp add: parse_line_def no_command_def abs_cmd_background)
  qed
qed

theorem parse_line_refines_spec_witness:
  "strtok_all (strip_newline ''cat -n < /in > /out &\<newline>'')
     = [''cat'', ''-n''] @ redir_toks [(''<'', ''/in''), (''>'', ''/out'')] @ [''&'']
   \<and> (\<exists>c. parse_line 7 ''cat -n < /in > /out &\<newline>'' empty_cmd = Inr (c, [])
        \<and> abs_cmd c = \<lparr>args = [''cat'', ''-n''], in_path = Some ''/in'', out_path = Some ''/out'', bg = True\<rparr>)"
proof -
  have h: "strtok_all (strip_newline ''cat -n < /in > /out &\<newline>'')
             = [''cat'', ''-n''] @ redir_toks [(''<'', ''/in''), (''>'', ''/out'')] @ [''&'']"
    "[''cat'', ''-n''] \<noteq> []" "\<forall>t \<in> set [''cat'', ''-n'']. plain t \<and> first_pair t = None"
    "\<forall>(r, f) \<in> set [(''<'', ''/in''), (''>'', ''/out'')]. (r = ''<'' \<or> r = ''>'') \<and> f \<noteq> []"
    "[''&''] = [] \<or> [''&''] = [''&'']"
    "length [''cat'', ''-n''] + length [(''<'', ''/in''), (''>'', ''/out'')] + length [''&''] \<le> MAX_ARGS"
    by code_simp+
  have s: "spec_tokens 7 ([''cat'', ''-n''] @ redir_toks [(''<'', ''/in''), (''>'', ''/out'')] @ [''&'']) no_command
             = \<lparr>args = [''cat'', ''-n''], in_path = Some ''/in'', out_path = Some ''/out'', bg = True\<rparr>"
    by code_simp
  show ?thesis using parse_line_refines_spec [OF h, of 7] h(1) unfolding s by blast
qed

end
