(* ===== verification/Launcher.thy ===== *)
theory Launcher
  imports WaitStatus Tokenizer
begin

text \<open>
  The process launcher and reaper of src/driver.c, \<open>execInput\<close> (lines 165--236). The
  child wires its redirections into its own descriptor table (\<open>open\<close>, \<open>dup2\<close>) and
  replaces its image with \<open>execvp\<close>, or exits with code 1 (open or dup2 failed) or 2
  (exec failed). The parent either blocks in \<open>waitpid\<close> (foreground) or polls once with
  \<open>WNOHANG\<close> (background) and prints what it got. The operating system is an explicit
  environment record: which forks succeed, the pids they return, whether a background
  child has already ended at the poll, which programs \<open>execvp\<close> finds, and how a
  program ends given its arguments, descriptors and the file system.
\<close>

subsection \<open>Descriptors and the file system\<close>

datatype open_mode = Rd_only | Wr_create_append

datatype fd_target = Tty | Open_file path open_mode

type_synonym fd_table = "nat \<Rightarrow> fd_target option"

record fsys =
  files :: "path \<Rightarrow> string option"
  dirs :: "path \<Rightarrow> bool"
  may_read :: "path \<Rightarrow> bool"
  may_write :: "path \<Rightarrow> bool"

text \<open>A child starts with the shell's standard input, output and error: the terminal.\<close>

definition init_fds :: fd_table where
  "init_fds = [0 \<mapsto> Tty, 1 \<mapsto> Tty, 2 \<mapsto> Tty]"

definition OPEN_MAX :: nat where
  "OPEN_MAX = 1024"

text \<open>\<open>open\<close> returns the lowest free descriptor below the process limit.\<close>

fun free_fd :: "fd_table \<Rightarrow> nat \<Rightarrow> nat \<Rightarrow> nat option" where
  "free_fd fds k 0 = None"
| "free_fd fds k (Suc n) = (if fds k = None then Some k else free_fd fds (Suc k) n)"

definition alloc_fd :: "fd_table \<Rightarrow> fd_target \<Rightarrow> (nat \<times> fd_table) option" where
  "alloc_fd fds t = (case free_fd fds 0 OPEN_MAX of None \<Rightarrow> None | Some k \<Rightarrow> Some (k, fds(k \<mapsto> t)))"

definition open_rdonly :: "fsys \<Rightarrow> fd_table \<Rightarrow> path \<Rightarrow> (nat \<times> fd_table) option" where
  "open_rdonly fs fds p =
     (if files fs p \<noteq> None \<and> may_read fs p then alloc_fd fds (Open_file p Rd_only) else None)"

text \<open>\<open>O_WRONLY | O_CREAT | O_APPEND\<close>: an absent file is created empty.\<close>

definition open_append :: "fsys \<Rightarrow> fd_table \<Rightarrow> path \<Rightarrow> (fsys \<times> nat \<times> fd_table) option" where
  "open_append fs fds p =
     (if may_write fs p then
        (case alloc_fd fds (Open_file p Wr_create_append) of
           None \<Rightarrow> None
         | Some (k, fds') \<Rightarrow>
             Some (if files fs p = None then fs\<lparr>files := (files fs)(p \<mapsto> [])\<rparr> else fs, k, fds'))
      else None)"

definition dup2 :: "fd_table \<Rightarrow> nat \<Rightarrow> nat \<Rightarrow> fd_table option" where
  "dup2 fds old new = (case fds old of None \<Rightarrow> None | Some t \<Rightarrow> Some (fds(new \<mapsto> t)))"

subsection \<open>The operating system as an environment\<close>

record os_env =
  fork_ok :: "nat \<Rightarrow> bool"
  fork_pid :: "nat \<Rightarrow> pid"
  bg_done :: "nat \<Rightarrow> bool"
  exec_ok :: "string \<Rightarrow> bool"
  run_prog :: "string list \<Rightarrow> fd_table \<Rightarrow> fsys \<Rightarrow> proc_end \<times> fsys"
  status_ptr_bits :: wstatus
  stale_buf :: string

text \<open>
  \<open>status_ptr_bits\<close> is the low word of the address \<open>&exit_status\<close>: in the background
  branch \<open>execInput\<close> applies \<open>WIFEXITED\<close> to the pointer \<open>exit_status\<close>, which the
  union-based glibc macros reinterpret as an \<open>int\<close>. \<open>stale_buf\<close> is the
  indeterminate contents of \<open>getInput\<close>'s local buffer (line 85) that \<open>fgets\<close> leaves
  in place at end of input; the frames of \<open>getInput\<close> and \<open>execInput\<close> share the stack
  region below \<open>main\<close>, so the model takes these bytes as given by the system.
\<close>

text \<open>What the parent side of the launcher owns: the status, the file system, the fork
  count, the pids of background children that are never waited for, the terminal. The
  shell's state extends this record, and \<open>execInput\<close> works on any extension.\<close>

record proc_state =
  exit_status :: wstatus
  fsys :: fsys
  nforks :: nat
  zombies :: "pid list"
  tty :: string

subsection \<open>The child\<close>

type_synonym child_exit = "int \<times> string"

text \<open>Lines 180--193: open the input path read-only and duplicate it onto descriptor 1.\<close>

definition child_redirect_in :: "fsys \<Rightarrow> cmd \<Rightarrow> fd_table \<Rightarrow> child_exit + fd_table" where
  "child_redirect_in fs c fds =
     (if input_file c = [] then Inr fds
      else (case open_rdonly fs fds (input_file c) of
              None \<Rightarrow> Inl (1, ''Input file failed to open().\<newline>'')
            | Some (k, fds') \<Rightarrow>
                (case dup2 fds' k 1 of
                   None \<Rightarrow> Inl (1, ''Unable to copy input file.\<newline>'')
                 | Some fds'' \<Rightarrow> Inr fds'')))"

text \<open>Lines 196--209: open the output path for appending and duplicate it onto descriptor 1.\<close>

definition child_redirect_out :: "fsys \<Rightarrow> cmd \<Rightarrow> fd_table \<Rightarrow> child_exit + (fsys \<times> fd_table)" where
  "child_redirect_out fs c fds =
     (if output_file c = [] then Inr (fs, fds)
      else (case open_append fs fds (output_file c) of
              None \<Rightarrow> Inl (1, ''Output file failed to open().\<newline>'')
            | Some (fs', k, fds') \<Rightarrow>
                (case dup2 fds' k 1 of
                   None \<Rightarrow> Inl (1, ''Unable to copy output file.\<newline>'')
                 | Some fds'' \<Rightarrow> Inr (fs', fds''))))"

datatype child_outcome =
    Child_exit int string
  | Child_image "string list" fd_table

text \<open>Lines 178--217: the whole child, up to \<open>execvp\<close> or an \<open>exit\<close>.\<close>

definition child_proc :: "os_env \<Rightarrow> fsys \<Rightarrow> cmd \<Rightarrow> fsys \<times> child_outcome" where
  "child_proc env fs c =
     (case child_redirect_in fs c init_fds of
        Inl (code, msg) \<Rightarrow> (fs, Child_exit code msg)
      | Inr fds \<Rightarrow>
          (case child_redirect_out fs c fds of
             Inl (code, msg) \<Rightarrow> (fs, Child_exit code msg)
           | Inr (fs', fds') \<Rightarrow>
               (if exec_ok env (hd (argv c)) then (fs', Child_image (argv c) fds')
                else (fs', Child_exit 2 ''The specified file or directory does not exist.\<newline>''))))"

text \<open>How the child ends and what it leaves in the file system.\<close>

definition child_end :: "os_env \<Rightarrow> fsys \<Rightarrow> cmd \<Rightarrow> proc_end \<times> fsys \<times> string" where
  "child_end env fs c =
     (case child_proc env fs c of
        (fs', Child_exit code msg) \<Rightarrow> (Exited code, fs', msg)
      | (fs', Child_image args fds) \<Rightarrow> (let (e, fs'') = run_prog env args fds fs' in (e, fs'', [])))"

subsection \<open>The parent\<close>

datatype 'a launch = Launched 'a | Fork_failed 'a

definition bg_report :: "pid \<Rightarrow> string" where
  "bg_report r = ''childPid in background is '' @ show_int r @ ''\<newline>''"

text \<open>
  Lines 165--236. A failed fork makes the shell exit with status 1. Otherwise the child
  runs (its effect on the file system is applied at once) and the parent waits: in the
  foreground \<open>waitpid(pid, exit_status, 0)\<close> stores the child's status; in the
  background \<open>waitpid(pid, exit_status, WNOHANG)\<close> stores it only if the child has
  already ended, returns the pid then and 0 otherwise, and the parent prints that return
  value and a status line read from the pointer.
\<close>

definition execInput :: "os_env \<Rightarrow> cmd \<Rightarrow> 'a proc_state_scheme \<Rightarrow> 'a proc_state_scheme launch" where
  "execInput env c s =
     (let n = nforks s in
      if \<not> fork_ok env n then Fork_failed (s\<lparr>tty := tty s @ ''fork()\<newline>''\<rparr>)
      else
        (let pid = fork_pid env n;
             (e, fs', msg) = child_end env (fsys s) c;
             s1 = s\<lparr>nforks := Suc n, fsys := fs', tty := tty s @ msg\<rparr>
         in if background c then
              (if bg_done env n then
                 Launched (s1\<lparr>exit_status := wait_status e,
                              tty := tty s1 @ bg_report pid @ report_status (status_ptr_bits env)\<rparr>)
               else
                 Launched (s1\<lparr>zombies := pid # zombies s1,
                              tty := tty s1 @ bg_report 0 @ report_status (status_ptr_bits env)\<rparr>))
            else Launched (s1\<lparr>exit_status := wait_status e\<rparr>)))"

lemmas launcher_defs [model_simps] = init_fds_def OPEN_MAX_def alloc_fd_def open_rdonly_def open_append_def
  dup2_def child_redirect_in_def child_redirect_out_def child_proc_def child_end_def bg_report_def
  execInput_def

subsection \<open>A sample environment\<close>

text \<open>
  A small concrete system on which the theorems below are instantiated: three forks
  succeed, the second background child has ended by the time it is polled, \<open>false\<close>
  exits with 1 and \<open>kill9\<close> is killed by signal 9; \<open>/in\<close> is a readable file. The stale
  input buffer holds what \<open>strtok\<close> left of the line \<open>cd /tmp\<close>.
\<close>

definition sample_env :: os_env where
  "sample_env =
     \<lparr>fork_ok = (\<lambda>n. n < 3), fork_pid = (\<lambda>n. 2000 + int n), bg_done = (\<lambda>n. n = 1),
      exec_ok = (\<lambda>p. p \<in> {''ls'', ''cat'', ''sleep'', ''false'', ''kill9''}),
      run_prog = (\<lambda>args fds fs. (if hd args = ''false'' then Exited 1
                                else if hd args = ''kill9'' then Signaled 9 False else Exited 0, fs)),
      status_ptr_bits = 0x7ffc, stale_buf = ''cd'' @ CHR 0x00 # ''/tmp''\<rparr>"

definition sample_fs :: fsys where
  "sample_fs = \<lparr>files = [''/in'' \<mapsto> ''hello''], dirs = (\<lambda>p. p \<in> {''/'', ''/home/u'', ''/tmp''}),
                may_read = (\<lambda>_. True), may_write = (\<lambda>_. True)\<rparr>"

definition sample_proc :: proc_state where
  "sample_proc = \<lparr>exit_status = 0, fsys = sample_fs, nforks = 0, zombies = [], tty = []\<rparr>"

subsection \<open>Lemmas\<close>

lemma free_fd_None: "free_fd fds k n = Some m \<Longrightarrow> fds m = None"
  by (induction fds k n rule: free_fd.induct) (auto split: if_splits)

lemma alloc_fd_Some: "alloc_fd fds t = Some (k, fds') \<Longrightarrow> fds k = None \<and> fds' = fds(k \<mapsto> t)"
  by (auto simp: alloc_fd_def dest: free_fd_None split: option.splits)

lemma dup2_after_alloc: "alloc_fd fds t = Some (k, fds') \<Longrightarrow> dup2 fds' k n = Some (fds'(n \<mapsto> t))"
  by (auto simp: alloc_fd_def dup2_def split: option.splits)

lemma alloc_fd_init: "alloc_fd init_fds t = Some (3, init_fds(3 \<mapsto> t))"
  by (simp add: alloc_fd_def OPEN_MAX_def init_fds_def numeral_eq_Suc)

lemma child_redirect_in_fd0:
  "child_redirect_in fs c fds = Inr fds' \<Longrightarrow> fds 0 = Some Tty \<Longrightarrow> fds' 0 = Some Tty"
  by (auto simp: child_redirect_in_def open_rdonly_def dup2_def dest!: alloc_fd_Some intro!: gr0I split: if_splits option.splits)

lemma child_redirect_out_fd0:
  "child_redirect_out fs c fds = Inr (fs', fds') \<Longrightarrow> fds 0 = Some Tty \<Longrightarrow> fds' 0 = Some Tty"
  by (auto simp: child_redirect_out_def open_append_def dup2_def dest!: alloc_fd_Some intro!: gr0I split: if_splits option.splits)

text \<open>
  C1: Whatever the redirections, the program image the child execs still reads the
  terminal on descriptor 0: the input file is duplicated onto descriptor 1, not 0.
\<close>

theorem child_stdin_never_redirected:
  "child_proc env fs c = (fs', Child_image args fds) \<Longrightarrow> fds 0 = Some Tty"
  by (auto simp: child_proc_def init_fds_def dest!: child_redirect_in_fd0 child_redirect_out_fd0
      split: sum.splits if_splits prod.splits)

theorem child_stdin_never_redirected_witness:
  "\<exists>fs' args fds. child_proc sample_env sample_fs (empty_cmd\<lparr>data := [0 \<mapsto> ''cat''], input_file := ''/in''\<rparr>)
      = (fs', Child_image args fds) \<and> fds 0 = Some Tty"
proof -
  have "case child_proc sample_env sample_fs (empty_cmd\<lparr>data := [0 \<mapsto> ''cat''], input_file := ''/in''\<rparr>) of
          (_, Child_image _ _) \<Rightarrow> True | _ \<Rightarrow> False"
    by code_simp
  then obtain fs' args fds
    where r: "child_proc sample_env sample_fs (empty_cmd\<lparr>data := [0 \<mapsto> ''cat''], input_file := ''/in''\<rparr>) = (fs', Child_image args fds)"
    by (auto split: prod.splits child_outcome.splits)
  show ?thesis using child_stdin_never_redirected [OF r] r by blast
qed

text \<open>
  C2: A child that reaches \<open>execvp\<close> runs the argument vector of the command with
  descriptor 1 on the output file if there is one, else on the input file if there is
  one, else on the terminal.
\<close>

theorem child_stdout_target:
  assumes "child_proc env fs c = (fs', Child_image args fds)"
  shows "args = argv c \<and>
         fds 1 = (if output_file c \<noteq> [] then Some (Open_file (output_file c) Wr_create_append)
                  else if input_file c \<noteq> [] then Some (Open_file (input_file c) Rd_only) else Some Tty)"
  using assms
  by (auto simp: child_proc_def child_redirect_in_def child_redirect_out_def open_rdonly_def
      open_append_def dup2_def init_fds_def dest!: alloc_fd_Some split: sum.splits if_splits prod.splits option.splits)

theorem child_stdout_target_witness:
  "\<exists>fs' args fds. child_proc sample_env sample_fs (empty_cmd\<lparr>data := [0 \<mapsto> ''ls''], output_file := ''/out''\<rparr>)
      = (fs', Child_image args fds) \<and> args = [''ls''] \<and> fds 1 = Some (Open_file ''/out'' Wr_create_append)"
proof -
  have "case child_proc sample_env sample_fs (empty_cmd\<lparr>data := [0 \<mapsto> ''ls''], output_file := ''/out''\<rparr>) of
          (_, Child_image _ _) \<Rightarrow> True | _ \<Rightarrow> False"
    by code_simp
  then obtain fs' args fds
    where r: "child_proc sample_env sample_fs (empty_cmd\<lparr>data := [0 \<mapsto> ''ls''], output_file := ''/out''\<rparr>) = (fs', Child_image args fds)"
    by (auto split: prod.splits child_outcome.splits)
  have a: "argv (empty_cmd\<lparr>data := [0 \<mapsto> ''ls''], output_file := ''/out''\<rparr>) = [''ls'']" by code_simp
  show ?thesis using child_stdout_target [OF r] r unfolding a by (simp add: empty_cmd_def)
qed

text \<open>
  C22: A child that exits before \<open>execvp\<close> exits with 1 after failing to open a
  redirection file, or with 2 when \<open>execvp\<close> does not find the program.
\<close>

theorem child_exit_codes:
  assumes "child_proc env fs c = (fs', Child_exit code msg)"
  shows "code = 1 \<and> (msg = ''Input file failed to open().\<newline>'' \<or> msg = ''Output file failed to open().\<newline>'')
         \<or> code = 2 \<and> \<not> exec_ok env (hd (argv c))"
  using assms
  by (auto simp: child_proc_def child_redirect_in_def child_redirect_out_def open_rdonly_def
      open_append_def dup2_after_alloc split: sum.splits if_splits prod.splits option.splits)

theorem child_exit_codes_witness:
  "\<exists>fs' code msg. child_proc sample_env sample_fs (empty_cmd\<lparr>data := [0 \<mapsto> ''nosuch'']\<rparr>) = (fs', Child_exit code msg)
      \<and> (code = 1 \<and> (msg = ''Input file failed to open().\<newline>'' \<or> msg = ''Output file failed to open().\<newline>'')
         \<or> code = 2 \<and> \<not> exec_ok sample_env (hd (argv (empty_cmd\<lparr>data := [0 \<mapsto> ''nosuch'']\<rparr>))))"
proof -
  have "case child_proc sample_env sample_fs (empty_cmd\<lparr>data := [0 \<mapsto> ''nosuch'']\<rparr>) of
          (_, Child_exit _ _) \<Rightarrow> True | _ \<Rightarrow> False"
    by code_simp
  then obtain fs' code msg
    where r: "child_proc sample_env sample_fs (empty_cmd\<lparr>data := [0 \<mapsto> ''nosuch'']\<rparr>) = (fs', Child_exit code msg)"
    by (auto split: prod.splits child_outcome.splits)
  show ?thesis using child_exit_codes [OF r] r by blast
qed

text \<open>
  C23: A missing input file makes the child exit with 1 and the diagnostic, leaving the
  file system as it was.
\<close>

theorem missing_input_file_exits_1:
  assumes "input_file c \<noteq> []" "files fs (input_file c) = None"
  shows "child_end env fs c = (Exited 1, fs, ''Input file failed to open().\<newline>'')"
  using assms by (simp add: child_end_def child_proc_def child_redirect_in_def open_rdonly_def)

theorem missing_input_file_exits_1_witness:
  "input_file (empty_cmd\<lparr>data := [0 \<mapsto> ''cat''], input_file := ''/missing''\<rparr>) \<noteq> []
   \<and> files sample_fs ''/missing'' = None
   \<and> child_end sample_env sample_fs (empty_cmd\<lparr>data := [0 \<mapsto> ''cat''], input_file := ''/missing''\<rparr>)
       = (Exited 1, sample_fs, ''Input file failed to open().\<newline>'')"
proof -
  have h: "input_file (empty_cmd\<lparr>data := [0 \<mapsto> ''cat''], input_file := ''/missing''\<rparr>) \<noteq> []"
    "files sample_fs (input_file (empty_cmd\<lparr>data := [0 \<mapsto> ''cat''], input_file := ''/missing''\<rparr>)) = None"
    by code_simp+
  show ?thesis using missing_input_file_exits_1 [OF h] h by (simp add: empty_cmd_def)
qed

text \<open>
  C14: A foreground command is waited for: the status becomes the encoding of how the
  child ended, no background pid is recorded and one more fork has been used.
\<close>

theorem foreground_records_status:
  assumes "fork_ok env (nforks s)" "\<not> background c"
  shows "\<exists>s'. execInput env c s = Launched s' \<and> exit_status s' = wait_status (fst (child_end env (fsys s) c))
              \<and> zombies s' = zombies s \<and> nforks s' = Suc (nforks s)"
  using assms by (simp add: execInput_def Let_def split: prod.splits)

theorem foreground_records_status_witness:
  "fork_ok sample_env (nforks sample_proc) \<and> \<not> background (empty_cmd\<lparr>data := [0 \<mapsto> ''false'']\<rparr>)
   \<and> (\<exists>s'. execInput sample_env (empty_cmd\<lparr>data := [0 \<mapsto> ''false'']\<rparr>) sample_proc = Launched s'
        \<and> exit_status s' = 0x100 \<and> zombies s' = [] \<and> nforks s' = 1)"
proof -
  have h: "fork_ok sample_env (nforks sample_proc)" "\<not> background (empty_cmd\<lparr>data := [0 \<mapsto> ''false'']\<rparr>)"
    by code_simp+
  have w: "wait_status (fst (child_end sample_env (fsys sample_proc) (empty_cmd\<lparr>data := [0 \<mapsto> ''false'']\<rparr>))) = 0x100"
    by code_simp
  show ?thesis using foreground_records_status [OF h] h unfolding w by (simp add: sample_proc_def)
qed

text \<open>
  C15: A background child still running at the poll keeps the old status, is recorded as
  never waited for, and the parent prints the pid 0 that \<open>waitpid\<close> returned and a
  status line decoded from the address of the status variable.
\<close>

theorem background_poll_running:
  assumes "fork_ok env (nforks s)" "background c" "\<not> bg_done env (nforks s)"
  shows "\<exists>s'. execInput env c s = Launched s' \<and> exit_status s' = exit_status s
              \<and> zombies s' = fork_pid env (nforks s) # zombies s
              \<and> (\<exists>pre. tty s' = pre @ bg_report 0 @ report_status (status_ptr_bits env))"
  using assms by (simp add: execInput_def Let_def split: prod.splits)

theorem background_poll_running_witness:
  "fork_ok sample_env (nforks sample_proc) \<and> background (empty_cmd\<lparr>data := [0 \<mapsto> ''sleep''], background := True\<rparr>)
   \<and> \<not> bg_done sample_env (nforks sample_proc)
   \<and> (\<exists>s'. execInput sample_env (empty_cmd\<lparr>data := [0 \<mapsto> ''sleep''], background := True\<rparr>) sample_proc = Launched s'
        \<and> exit_status s' = 0 \<and> zombies s' = [2000]
        \<and> (\<exists>pre. tty s' = pre @ ''childPid in background is 0\<newline>Terminated with signal: 124\<newline>''))"
proof -
  have h: "fork_ok sample_env (nforks sample_proc)" "background (empty_cmd\<lparr>data := [0 \<mapsto> ''sleep''], background := True\<rparr>)"
    "\<not> bg_done sample_env (nforks sample_proc)"
    by code_simp+
  have m: "bg_report 0 @ report_status (status_ptr_bits sample_env)
             = ''childPid in background is 0\<newline>Terminated with signal: 124\<newline>''"
    by code_simp
  have p: "fork_pid sample_env (nforks sample_proc) = 2000" by code_simp
  show ?thesis using background_poll_running [OF h] h unfolding m p by (simp add: sample_proc_def)
qed

lemma execInput_Launched:
  "execInput env c s = Launched s' \<Longrightarrow>
   nforks s' = Suc (nforks s) \<and> set (zombies s) \<subseteq> set (zombies s') \<and>
   (exit_status s' = exit_status s \<or> exit_status s' = wait_status (fst (child_end env (fsys s) c)))"
  by (auto simp: execInput_def Let_def split: if_splits prod.splits)

lemma execInput_Fork_failed:
  "execInput env c s = Fork_failed s' \<Longrightarrow> \<not> fork_ok env (nforks s)"
  by (auto simp: execInput_def Let_def split: if_splits prod.splits)

lemma child_end_no_redirect:
  "input_file c = [] \<Longrightarrow> output_file c = [] \<Longrightarrow> exec_ok env (hd (argv c)) \<Longrightarrow>
   child_end env fs c = (fst (run_prog env (argv c) init_fds fs), snd (run_prog env (argv c) init_fds fs), [])"
  by (simp add: child_end_def child_proc_def child_redirect_in_def child_redirect_out_def split_beta)

lemma child_proc_exit_code: "child_proc env fs c = (fs', Child_exit code msg) \<Longrightarrow> code = 1 \<or> code = 2"
  by (auto simp: child_proc_def child_redirect_in_def child_redirect_out_def
      split: sum.splits prod.splits if_splits option.splits)

end
