(* ===== verification/Shell.thy ===== *)
theory Shell
  imports Launcher
begin

text \<open>
  The main loop of src/driver.c, \<open>main\<close> (lines 15--82): the session state, one loop
  iteration (reset the command, \<open>getInput\<close>, then re-prompt, a built-in or
  \<open>execInput\<close>), and the loop itself. The state extends the launcher's
  \<open>proc_state\<close> with the shell's pid, its working directory, \<open>HOME\<close>, the rest of
  standard input and the \<open>exit\<close> flag. The loop stops only at \<open>exit\<close>, at a failed
  fork (\<open>exit(1)\<close> in \<open>execInput\<close>) or at a crash of the tokenizer; at end of input
  each iteration parses the stale buffer again. The loop is run with fuel, running out
  of fuel being \<open>None\<close>; the theorem on end of input shows that no amount of fuel makes
  it halt there. The relation \<open>shell_reach\<close> is the loop's state machine, with the
  status invariant proved by rule induction.
\<close>

record shell = proc_state +
  sh_pid :: pid
  cwd :: path
  home :: "string option"
  stdin :: string
  exit_flag :: bool

text \<open>Lines 17--24: the pid is taken once, the status starts at 0, the flag is clear.\<close>

definition init_shell :: "pid \<Rightarrow> path \<Rightarrow> string option \<Rightarrow> fsys \<Rightarrow> string \<Rightarrow> shell" where
  "init_shell pid dir h fs inp =
     \<lparr>exit_status = 0, fsys = fs, nforks = 0, zombies = [], tty = [],
      sh_pid = pid, cwd = dir, home = h, stdin = inp, exit_flag = False\<rparr>"

subsection \<open>The built-in \<open>cd\<close>\<close>

text \<open>\<open>chdir\<close> resolves a relative path against the working directory and fails on a path
  that is not a directory (\<open>..\<close> and symbolic links are not interpreted).\<close>

definition resolve :: "path \<Rightarrow> path \<Rightarrow> path" where
  "resolve dir p = (if p \<noteq> [] \<and> hd p = CHR ''/'' then p else dir @ ''/'' @ p)"

definition chdir :: "'a shell_scheme \<Rightarrow> path \<Rightarrow> 'a shell_scheme option" where
  "chdir s p = (let q = resolve (cwd s) p in if dirs (fsys s) q then Some (s\<lparr>cwd := q\<rparr>) else None)"

text \<open>Lines 60--71: with an argument, change to it or print the error; without one, change
  to \<open>HOME\<close> and ignore a failure (\<open>chdir(NULL)\<close> fails when \<open>HOME\<close> is unset).\<close>

definition cd_builtin :: "cmd \<Rightarrow> 'a shell_scheme \<Rightarrow> 'a shell_scheme" where
  "cd_builtin c s =
     (case data c 1 of
        Some d \<Rightarrow> (case chdir s d of Some s' \<Rightarrow> s' | None \<Rightarrow> s\<lparr>tty := tty s @ ''Directory does not exist.\<newline>''\<rparr>)
      | None \<Rightarrow> (case home s of None \<Rightarrow> s | Some h \<Rightarrow> (case chdir s h of Some s' \<Rightarrow> s' | None \<Rightarrow> s)))"

subsection \<open>One iteration\<close>

datatype halt = Exit_builtin | Fork_failure | Crash tok_error

datatype step_result = Next shell | Halt halt shell

text \<open>Lines 33--77: the dispatch on the first argument.\<close>

definition dispatch :: "os_env \<Rightarrow> cmd \<Rightarrow> shell \<Rightarrow> step_result" where
  "dispatch env c s =
     (case data c 0 of
        None \<Rightarrow> Next s
      | Some a0 \<Rightarrow>
          if a0 = [] \<or> hd a0 = CHR ''#'' then Next s
          else if a0 = ''exit'' then Next (s\<lparr>exit_flag := True\<rparr>)
          else if a0 = ''status'' then Next (s\<lparr>tty := tty s @ report_status (exit_status s)\<rparr>)
          else if a0 = ''cd'' then Next (cd_builtin c s)
          else (case execInput env c s of Launched s' \<Rightarrow> Next s' | Fork_failed s' \<Rightarrow> Halt Fork_failure s'))"

text \<open>Lines 26--77: one pass of the \<open>while (!exit)\<close> loop.\<close>

definition main_step :: "os_env \<Rightarrow> shell \<Rightarrow> step_result" where
  "main_step env s =
     (case getInput (sh_pid s) (stale_buf env) (stdin s) empty_cmd of
        Inl e \<Rightarrow> Halt (Crash e) (s\<lparr>tty := tty s @ '': ''\<rparr>)
      | Inr (c, out, rest) \<Rightarrow> dispatch env c (s\<lparr>stdin := rest, tty := tty s @ out\<rparr>))"

subsection \<open>The loop\<close>

text \<open>
  Lines 25--81 with fuel \<open>n\<close>: at most \<open>n\<close> iterations; \<open>None\<close> is not having halted
  within them.
\<close>

fun run_fuel :: "os_env \<Rightarrow> nat \<Rightarrow> shell \<Rightarrow> halt option \<times> shell" where
  "run_fuel env 0 s = (None, s)"
| "run_fuel env (Suc n) s =
     (case main_step env s of
        Halt h s' \<Rightarrow> (Some h, s')
      | Next s' \<Rightarrow> if exit_flag s' then (Some Exit_builtin, s') else run_fuel env n s')"

text \<open>The state machine: the states the loop passes through from a start state.\<close>

inductive shell_reach :: "os_env \<Rightarrow> shell \<Rightarrow> shell \<Rightarrow> bool" for env s0 where
  start: "shell_reach env s0 s0"
| step: "shell_reach env s0 s \<Longrightarrow> \<not> exit_flag s \<Longrightarrow> main_step env s = Next s' \<Longrightarrow> shell_reach env s0 s'"

text \<open>The invariant of the status: it is the encoding of an end the kernel can report.\<close>

definition status_ok :: "wstatus \<Rightarrow> bool" where
  "status_ok w \<longleftrightarrow> valid_end (decode_status w) \<and> wait_status (decode_status w) = w"

text \<open>An environment whose programs end in ways the kernel can report.\<close>

definition env_ok :: "os_env \<Rightarrow> bool" where
  "env_ok env \<longleftrightarrow> (\<forall>args fds fs. valid_end (fst (run_prog env args fds fs)))"

lemmas shell_defs [model_simps] = init_shell_def resolve_def chdir_def cd_builtin_def dispatch_def
  main_step_def status_ok_def

text \<open>A session of the sample system of the launcher, started in \<open>/home/u\<close> with pid 1234.\<close>

definition sample_shell :: "string \<Rightarrow> shell" where
  "sample_shell inp = init_shell 1234 ''/home/u'' (Some ''/home/u'') sample_fs inp"

subsection \<open>Lemmas\<close>

lemma execInput_shell:
  "execInput env c (s :: shell) = Launched s' \<Longrightarrow>
   stdin s' = stdin s \<and> exit_flag s' = exit_flag s \<and> sh_pid s' = sh_pid s"
  by (auto simp: execInput_def Let_def split: if_splits prod.splits)

lemma dispatch_stdin: "dispatch env c s = Next s' \<Longrightarrow> stdin s' = stdin s"
  by (auto simp: dispatch_def cd_builtin_def chdir_def Let_def dest!: execInput_shell
      split: option.splits if_splits launch.splits)

lemma dispatch_external:
  "data c 0 = Some a0 \<Longrightarrow> a0 \<noteq> [] \<Longrightarrow> hd a0 \<noteq> CHR ''#'' \<Longrightarrow> a0 \<notin> {''exit'', ''status'', ''cd''} \<Longrightarrow>
   dispatch env c s = (case execInput env c s of Launched s' \<Rightarrow> Next s' | Fork_failed s' \<Rightarrow> Halt Fork_failure s')"
  by (simp add: dispatch_def)

lemma dispatch_continues:
  assumes "data c 0 \<noteq> Some ''exit''" "fork_ok env (nforks s)" "\<not> exit_flag s"
  shows "\<exists>s'. dispatch env c s = Next s' \<and> stdin s' = stdin s \<and> \<not> exit_flag s' \<and> sh_pid s' = sh_pid s"
proof (cases "execInput env c s")
  case (Launched s')
  with assms show ?thesis
    by (auto simp: dispatch_def cd_builtin_def chdir_def Let_def dest!: execInput_shell
        split: option.splits)
next
  case (Fork_failed s')
  with assms(2) show ?thesis by (auto dest: execInput_Fork_failed)
qed

lemma status_ok_wait_status: "valid_end e \<Longrightarrow> status_ok (wait_status e)"
  by (cases e) (simp_all add: status_ok_def)

lemma child_end_valid: "env_ok env \<Longrightarrow> valid_end (fst (child_end env fs c))"
proof (cases "child_proc env fs c")
  case (Pair fs' r)
  assume ok: "env_ok env"
  show ?thesis
  proof (cases r)
    case (Child_exit code msg)
    with Pair child_proc_exit_code show ?thesis by (fastforce simp: child_end_def)
  next
    case (Child_image args fds)
    with Pair ok show ?thesis by (simp add: child_end_def env_ok_def split_beta)
  qed
qed

lemma main_step_status:
  assumes "main_step env s = Next s'" "env_ok env"
  shows "exit_status s' = exit_status s \<or> (\<exists>e. valid_end e \<and> exit_status s' = wait_status e)"
  using assms
  by (auto simp: main_step_def dispatch_def cd_builtin_def chdir_def Let_def
      dest!: execInput_Launched intro: child_end_valid
      split: sum.splits prod.splits option.splits if_splits launch.splits)

text \<open>
  C3: Invariant of the main loop: in every state the loop reaches, the recorded status
  is the encoding of an exit code 0--255 or a signal 1--126, provided the programs run
  end that way and the initial status (0) is one.
\<close>

theorem reach_status_ok:
  assumes "shell_reach env s0 s" "env_ok env" "status_ok (exit_status s0)"
  shows "status_ok (exit_status s)"
  using assms(1)
proof (induction rule: shell_reach.induct)
  case start
  show ?case by (rule assms(3))
next
  case (step s s')
  from main_step_status [OF step(3) assms(2)] step(4) show ?case
    by (auto intro: status_ok_wait_status)
qed

theorem reach_status_ok_witness:
  "\<exists>s. shell_reach sample_env (sample_shell ''false\<newline>'') s \<and> exit_status s = 0x100
      \<and> env_ok sample_env \<and> status_ok (exit_status (sample_shell ''false\<newline>'')) \<and> status_ok (exit_status s)"
proof -
  have "case main_step sample_env (sample_shell ''false\<newline>'') of Next s \<Rightarrow> exit_status s = 0x100 | Halt _ _ \<Rightarrow> False"
    by code_simp
  then obtain s where m: "main_step sample_env (sample_shell ''false\<newline>'') = Next s" and e: "exit_status s = 0x100"
    by (auto split: step_result.splits)
  have "\<not> exit_flag (sample_shell ''false\<newline>'')" by code_simp
  with m have r: "shell_reach sample_env (sample_shell ''false\<newline>'') s"
    by (blast intro: shell_reach.intros)
  have ok: "env_ok sample_env" by (simp add: env_ok_def sample_env_def)
  have z: "status_ok (exit_status (sample_shell ''false\<newline>''))" by code_simp
  show ?thesis using reach_status_ok [OF r ok z] r ok z e by blast
qed

text \<open>
  C17: An iteration that forks nothing (a re-prompt or a built-in) leaves the status, the
  background pids and the file system unchanged.
\<close>

theorem builtins_keep_status:
  assumes "main_step env s = Next s'" "nforks s' = nforks s"
  shows "exit_status s' = exit_status s \<and> zombies s' = zombies s \<and> fsys s' = fsys s"
  using assms
  by (auto simp: main_step_def dispatch_def cd_builtin_def chdir_def Let_def
      dest!: execInput_Launched split: sum.splits prod.splits option.splits if_splits launch.splits)

theorem builtins_keep_status_witness:
  "\<exists>s'. main_step sample_env (sample_shell ''cd /tmp\<newline>'') = Next s' \<and> nforks s' = nforks (sample_shell ''cd /tmp\<newline>'')
      \<and> exit_status s' = exit_status (sample_shell ''cd /tmp\<newline>'') \<and> zombies s' = zombies (sample_shell ''cd /tmp\<newline>'')
      \<and> fsys s' = fsys (sample_shell ''cd /tmp\<newline>'')"
proof -
  have "case main_step sample_env (sample_shell ''cd /tmp\<newline>'') of
          Next s' \<Rightarrow> nforks s' = nforks (sample_shell ''cd /tmp\<newline>'') | Halt _ _ \<Rightarrow> False"
    by code_simp
  then obtain s' where m: "main_step sample_env (sample_shell ''cd /tmp\<newline>'') = Next s'"
    and n: "nforks s' = nforks (sample_shell ''cd /tmp\<newline>'')"
    by (auto split: step_result.splits)
  show ?thesis using builtins_keep_status [OF m n] m n by blast
qed

text \<open>
  C16: The built-in \<open>status\<close> prints the message decoded from the recorded status and
  changes nothing else, whatever arguments follow it.
\<close>

theorem status_builtin_reports:
  assumes "argv c = ''status'' # args"
  shows "dispatch env c s = Next (s\<lparr>tty := tty s @ report_status (exit_status s)\<rparr>)"
  using argv_data(1) [OF assms, of 0] by (simp add: dispatch_def)

theorem status_builtin_reports_witness:
  "argv (empty_cmd\<lparr>data := [0 \<mapsto> ''status'']\<rparr>) = ''status'' # []
   \<and> dispatch sample_env (empty_cmd\<lparr>data := [0 \<mapsto> ''status'']\<rparr>) (sample_shell [])
       = Next ((sample_shell [])\<lparr>tty := ''Exited with signal: 0\<newline>''\<rparr>)"
proof -
  have a: "argv (empty_cmd\<lparr>data := [0 \<mapsto> ''status'']\<rparr>) = ''status'' # []" by code_simp
  have r: "tty (sample_shell []) @ report_status (exit_status (sample_shell [])) = ''Exited with signal: 0\<newline>''"
    by code_simp
  show ?thesis using status_builtin_reports [OF a, of sample_env "sample_shell []"] a unfolding r by blast
qed

text \<open>
  C18: \<open>cd\<close> to a path that is not a directory prints the error and leaves the working
  directory and everything else unchanged.
\<close>

theorem cd_missing_directory:
  assumes "argv c = ''cd'' # d # args" "\<not> dirs (fsys s) (resolve (cwd s) d)"
  shows "dispatch env c s = Next (s\<lparr>tty := tty s @ ''Directory does not exist.\<newline>''\<rparr>)"
  using argv_data(1) [OF assms(1), of 0] argv_data(1) [OF assms(1), of 1] assms(2)
  by (simp add: dispatch_def cd_builtin_def chdir_def)

theorem cd_missing_directory_witness:
  "argv (empty_cmd\<lparr>data := [0 \<mapsto> ''cd'', 1 \<mapsto> ''/nonexistent'']\<rparr>) = ''cd'' # ''/nonexistent'' # []
   \<and> \<not> dirs (fsys (sample_shell [])) (resolve (cwd (sample_shell [])) ''/nonexistent'')
   \<and> dispatch sample_env (empty_cmd\<lparr>data := [0 \<mapsto> ''cd'', 1 \<mapsto> ''/nonexistent'']\<rparr>) (sample_shell [])
       = Next ((sample_shell [])\<lparr>tty := tty (sample_shell []) @ ''Directory does not exist.\<newline>''\<rparr>)"
proof -
  have h: "argv (empty_cmd\<lparr>data := [0 \<mapsto> ''cd'', 1 \<mapsto> ''/nonexistent'']\<rparr>) = ''cd'' # ''/nonexistent'' # []"
    "\<not> dirs (fsys (sample_shell [])) (resolve (cwd (sample_shell [])) ''/nonexistent'')"
    by code_simp+
  show ?thesis using cd_missing_directory [OF h] h by blast
qed

text \<open>
  C19: \<open>cd\<close> without an argument changes to \<open>HOME\<close> when it names a directory, and
  changes nothing else.
\<close>

theorem cd_no_argument_goes_home:
  assumes "argv c = [''cd'']" "home s = Some h" "dirs (fsys s) (resolve (cwd s) h)"
  shows "dispatch env c s = Next (s\<lparr>cwd := resolve (cwd s) h\<rparr>)"
  using argv_data(1) [OF assms(1), of 0] argv_data(2) [OF assms(1)] assms(2,3)
  by (simp add: dispatch_def cd_builtin_def chdir_def INPUTSIZE_def)

theorem cd_no_argument_goes_home_witness:
  "argv (empty_cmd\<lparr>data := [0 \<mapsto> ''cd'']\<rparr>) = [''cd''] \<and> home ((sample_shell [])\<lparr>cwd := ''/tmp''\<rparr>) = Some ''/home/u''
   \<and> dirs (fsys ((sample_shell [])\<lparr>cwd := ''/tmp''\<rparr>)) (resolve ''/tmp'' ''/home/u'')
   \<and> dispatch sample_env (empty_cmd\<lparr>data := [0 \<mapsto> ''cd'']\<rparr>) ((sample_shell [])\<lparr>cwd := ''/tmp''\<rparr>)
       = Next ((sample_shell [])\<lparr>cwd := ''/home/u''\<rparr>)"
proof -
  have h: "argv (empty_cmd\<lparr>data := [0 \<mapsto> ''cd'']\<rparr>) = [''cd'']" "home ((sample_shell [])\<lparr>cwd := ''/tmp''\<rparr>) = Some ''/home/u''"
    "dirs (fsys ((sample_shell [])\<lparr>cwd := ''/tmp''\<rparr>)) (resolve (cwd ((sample_shell [])\<lparr>cwd := ''/tmp''\<rparr>)) ''/home/u'')"
    by code_simp+
  have r: "resolve (cwd ((sample_shell [])\<lparr>cwd := ''/tmp''\<rparr>)) ''/home/u'' = ''/home/u''"
    "resolve ''/tmp'' ''/home/u'' = ''/home/u''" by code_simp+
  show ?thesis using cd_no_argument_goes_home [OF h, of sample_env] h unfolding r by simp
qed

text \<open>
  C20: A line with no token, or a comment line (first token starting with \<open>#\<close>) of
  ordinary tokens, only prints the prompt and consumes the line.
\<close>

theorem reprompt_lines:
  assumes "fgets INPUTSIZE (stdin s) = Some (buf, rest)"
    and "strtok_all (strip_newline buf) = []
         \<or> (\<exists>tok toks. strtok_all (strip_newline buf) = tok # toks \<and> tok \<noteq> [] \<and> hd tok = CHR ''#''
              \<and> (\<forall>t \<in> set (tok # toks). plain t) \<and> length toks < MAX_ARGS)"
  shows "main_step env s = Next (s\<lparr>stdin := rest, tty := tty s @ '': ''\<rparr>)"
  using assms(2)
proof
  assume none: "strtok_all (strip_newline buf) = []"
  have "\<exists>c. parse_line (sh_pid s) buf empty_cmd = Inr (c, []) \<and> (data c 0 = None \<or> data c 0 = Some [])"
    using none by (cases "strip_newline buf = []") (auto simp: parse_line_def empty_cmd_def)
  then show ?thesis using assms(1)
    by (auto simp: main_step_def getInput_def dispatch_def)
next
  assume "\<exists>tok toks. strtok_all (strip_newline buf) = tok # toks \<and> tok \<noteq> [] \<and> hd tok = CHR ''#''
              \<and> (\<forall>t \<in> set (tok # toks). plain t) \<and> length toks < MAX_ARGS"
  then obtain tok toks where ts: "strtok_all (strip_newline buf) = tok # toks" and tok: "tok \<noteq> []" "hd tok = CHR ''#''"
    and pl: "\<forall>t \<in> set (tok # toks). plain t" and len: "length toks < MAX_ARGS" by blast
  have line: "strip_newline buf \<noteq> []" using ts by auto
  have "hd (expand_pid (sh_pid s) tok) = CHR ''#''"
    using tok by (cases tok) (simp_all add: expand_pid_subst_first subst_first_Cons)
  moreover have "expand_pid (sh_pid s) tok \<noteq> []"
    using tok by (cases tok) (simp_all add: expand_pid_subst_first subst_first_Cons)
  ultimately show ?thesis
    using parse_line_plain_cmd [OF line, of "sh_pid s"] pl ts len assms(1)
    by (simp add: main_step_def getInput_def dispatch_def upd_range_def MAX_ARGS_def)
qed

theorem reprompt_lines_witness:
  "fgets INPUTSIZE (stdin (sample_shell ''# a comment\<newline>ls\<newline>'')) = Some (''# a comment\<newline>'', ''ls\<newline>'')
   \<and> main_step sample_env (sample_shell ''# a comment\<newline>ls\<newline>'')
       = Next ((sample_shell ''# a comment\<newline>ls\<newline>'')\<lparr>stdin := ''ls\<newline>'', tty := '': ''\<rparr>)"
proof -
  have f: "fgets INPUTSIZE (stdin (sample_shell ''# a comment\<newline>ls\<newline>'')) = Some (''# a comment\<newline>'', ''ls\<newline>'')"
    by code_simp
  have t: "strtok_all (strip_newline ''# a comment\<newline>'') = ''#'' # [''a'', ''comment'']"
    "\<forall>x \<in> set (''#'' # [''a'', ''comment'']). plain x" "length [''a'', ''comment''] < MAX_ARGS"
    by code_simp+
  have d: "strtok_all (strip_newline ''# a comment\<newline>'') = []
         \<or> (\<exists>tok toks. strtok_all (strip_newline ''# a comment\<newline>'') = tok # toks \<and> tok \<noteq> [] \<and> hd tok = CHR ''#''
              \<and> (\<forall>t \<in> set (tok # toks). plain t) \<and> length toks < MAX_ARGS)"
    using t by auto
  have e: "tty (sample_shell ''# a comment\<newline>ls\<newline>'') = []" by code_simp
  show ?thesis using reprompt_lines [OF f d, of sample_env] f unfolding e by simp
qed

text \<open>
  C13: A line that ends with \<open>>\<close> after ordinary tokens, a comment line included,
  makes \<open>getInput\<close> pass NULL to \<open>strcpy\<close>: the shell crashes.
\<close>

theorem final_redirect_line_crashes:
  assumes "fgets INPUTSIZE (stdin s) = Some (buf, rest)"
    and "strtok_all (strip_newline buf) = args @ [''>'']" "\<forall>t \<in> set args. plain t" "length args < MAX_ARGS"
  shows "main_step env s = Halt (Crash Null_output_path) (s\<lparr>tty := tty s @ '': ''\<rparr>)"
  using final_output_redirect_crashes [OF assms(2-4)] assms(1)
  by (simp add: main_step_def getInput_def)

theorem final_redirect_line_crashes_witness:
  "fgets INPUTSIZE (stdin (sample_shell ''# note >\<newline>'')) = Some (''# note >\<newline>'', [])
   \<and> strtok_all (strip_newline ''# note >\<newline>'') = [''#'', ''note''] @ [''>'']
   \<and> main_step sample_env (sample_shell ''# note >\<newline>'')
       = Halt (Crash Null_output_path) ((sample_shell ''# note >\<newline>'')\<lparr>tty := tty (sample_shell ''# note >\<newline>'') @ '': ''\<rparr>)"
proof -
  have h: "fgets INPUTSIZE (stdin (sample_shell ''# note >\<newline>'')) = Some (''# note >\<newline>'', [])"
    "strtok_all (strip_newline ''# note >\<newline>'') = [''#'', ''note''] @ [''>'']"
    "\<forall>t \<in> set [''#'', ''note'']. plain t" "length [''#'', ''note''] < MAX_ARGS"
    by code_simp+
  show ?thesis using final_redirect_line_crashes [OF h, of sample_env] h(1,2) by blast
qed

text \<open>
  C21: End of input does not stop the shell: \<open>fgets\<close> returns NULL, its result is not
  checked (line 92), and every further iteration parses the same stale buffer. Unless
  that buffer starts with \<open>exit\<close> or makes the tokenizer crash, and as long as forks
  succeed, the loop never halts: no amount of fuel yields a result.
\<close>

theorem eof_never_halts:
  assumes "stdin s = []" "\<not> exit_flag s"
    and stale: "parse_line (sh_pid s) (stale_buf env) empty_cmd = Inr (c, out)" "data c 0 \<noteq> Some ''exit''"
    and forks: "\<forall>k. fork_ok env k"
  shows "fst (run_fuel env n s) = None"
  using assms(1,2) stale(1)
proof (induction n arbitrary: s)
  case 0
  then show ?case by simp
next
  case (Suc n)
  let ?s0 = "s\<lparr>stdin := [], tty := tty s @ '': '' @ out\<rparr>"
  have "main_step env s = dispatch env c ?s0"
    using Suc.prems by (simp add: main_step_def getInput_eof)
  moreover obtain s' where d: "dispatch env c ?s0 = Next s'"
    and s': "stdin s' = []" "\<not> exit_flag s'" "sh_pid s' = sh_pid s"
    using dispatch_continues [OF stale(2), of env ?s0] forks Suc.prems(2) by auto
  moreover have "fst (run_fuel env n s') = None"
    using Suc.IH [OF s'(1,2)] s'(3) Suc.prems(3) by simp
  ultimately show ?case by simp
qed

theorem eof_never_halts_witness:
  "\<exists>c out. parse_line 1234 (stale_buf sample_env) empty_cmd = Inr (c, out) \<and> data c 0 = Some ''cd''
     \<and> (\<forall>n. fst (run_fuel (sample_env\<lparr>fork_ok := \<lambda>_. True\<rparr>) n (sample_shell [])) = None)"
proof -
  have "case parse_line 1234 (stale_buf sample_env) empty_cmd of Inl _ \<Rightarrow> False | Inr (c, _) \<Rightarrow> data c 0 = Some ''cd''"
    by code_simp
  then obtain c out where p: "parse_line 1234 (stale_buf sample_env) empty_cmd = Inr (c, out)" and d: "data c 0 = Some ''cd''"
    by (auto split: sum.splits)
  have h: "stdin (sample_shell []) = []" "\<not> exit_flag (sample_shell [])"
    "parse_line (sh_pid (sample_shell [])) (stale_buf (sample_env\<lparr>fork_ok := \<lambda>_. True\<rparr>)) empty_cmd = Inr (c, out)"
    "data c 0 \<noteq> Some ''exit''" "\<forall>k. fork_ok (sample_env\<lparr>fork_ok := \<lambda>_. True\<rparr>) k"
    using p d by (simp_all add: sample_shell_def init_shell_def)
  show ?thesis using eof_never_halts [OF h] p d by blast
qed

end
