(* ===== verification/Spec2Isabelle.thy ===== *)
theory Spec2Isabelle
  imports WaitStatus Tokenizer CommandSpec Launcher Shell
begin

text \<open>
  \<^bold>\<open>A model of smallsh (src/driver.c).\<close>

  \<^emph>\<open>The program.\<close> smallsh is one C file of three functions. \<open>main\<close> (lines 15--82)
  owns the session state (the pid, the status of the last child, the working directory)
  and loops: it clears the command, calls \<open>getInput\<close>, re-prompts on an empty or
  comment line, runs the built-ins \<open>exit\<close>, \<open>status\<close> and \<open>cd\<close> itself, and hands
  anything else to \<open>execInput\<close>. \<open>getInput\<close> (lines 84--163) prints the prompt, reads
  one line with \<open>fgets\<close>, splits it with \<open>strtok\<close> and fills the argument array, the two
  redirection paths and the background flag, expanding \<open>$$\<close> to the pid. \<open>execInput\<close>
  (lines 165--236) forks; the child opens its redirection files, duplicates them with
  \<open>dup2\<close> and calls \<open>execvp\<close>; the parent waits for a foreground child or polls a
  background child once with \<open>WNOHANG\<close>.

  \<^emph>\<open>The theories.\<close>
  \<^item> \<open>Prelude\<close>: the decimal printing of \<open>snprintf("%d")\<close> (\<open>show_int\<close>), C strings
    (\<open>cstr\<close>), and the list and digit lemmas the components share.
  \<^item> \<open>WaitStatus\<close>: the status word as a \<open>32 word\<close>, the glibc macros \<open>WIFEXITED\<close>,
    \<open>WEXITSTATUS\<close>, \<open>WTERMSIG\<close> as bit operations, the kernel's encoding
    \<open>wait_status\<close> of an exit code or a signal, and \<open>report_status\<close>, the message of
    \<open>main\<close> lines 51--56 and \<open>execInput\<close> lines 225--230.
  \<^item> \<open>Tokenizer\<close>: \<open>getInput\<close>. The command is the record \<open>cmd\<close> (the \<open>char *data[]\<close>
    array as a map from index to string, \<open>None\<close> for NULL). \<open>fgets\<close>, \<open>strip_newline\<close>,
    \<open>strtok_next\<close>/\<open>strtok_all\<close> model the library calls; \<open>parse_loop\<close> is the
    \<open>while (token)\<close> loop with the index \<open>i\<close> and the flag \<open>check_background\<close>;
    \<open>expand_loop\<close> is the in-place \<open>$$\<close> loop, character by character as the C code does
    it, proved equal to the structural \<open>subst_first\<close>; \<open>parse_line\<close> and \<open>getInput\<close>
    compose them; \<open>argv\<close> is what \<open>execvp\<close> reads from the array. The NULL
    dereference of a final \<open>>\<close> is the error value \<open>Null_output_path\<close>. At end of
    input \<open>fgets\<close> returns NULL, which line 92 ignores: \<open>getInput\<close> then parses the
    stale contents of its buffer, a parameter of the model.
  \<^item> \<open>CommandSpec\<close>: the tokenizer contract of the specification (section 4.1) as the
    function \<open>spec_tokens\<close> on token lists, the abstraction \<open>abs_cmd\<close> of the C command,
    and the refinement theorem for lines in canonical form.
  \<^item> \<open>Launcher\<close>: \<open>execInput\<close>. The child is \<open>child_redirect_in\<close> (lines 180--193),
    \<open>child_redirect_out\<close> (196--209) and \<open>child_proc\<close> (178--217) over an explicit
    descriptor table and file system; \<open>open\<close> takes the lowest free descriptor. The
    parent is \<open>execInput\<close> over the record \<open>proc_state\<close> (status, file system, fork
    count, unreaped background pids, terminal output); it is polymorphic in the record's
    extension so that the shell's state passes through it. The operating system is the
    record \<open>os_env\<close>: which forks succeed and the pids they return, whether a background
    child has ended when it is polled, which programs \<open>execvp\<close> finds, how a program
    ends, the bits of the address \<open>&exit_status\<close> that line 225 decodes, and the
    stale bytes of \<open>getInput\<close>'s buffer at end of input.
  \<^item> \<open>Shell\<close>: \<open>main\<close>. The state \<open>shell\<close> extends \<open>proc_state\<close> with the pid, the
    working directory, \<open>HOME\<close>, the unread input and the \<open>exit\<close> flag. \<open>dispatch\<close>
    is lines 33--77, \<open>main_step\<close> one iteration, \<open>run_fuel\<close> the loop with fuel,
    \<open>shell_reach\<close> the loop as a step relation.
  \<^item> This theory: properties of whole iterations and sessions, composing the components.

  \<^emph>\<open>What is proved.\<close> Tokenizer: the argument vector of a plain line (first 512 tokens,
  expanded); the vector ends at the first redirection; background is set exactly by a
  final \<open>&\<close>; the \<open>$$\<close> loop replaces only the first pair and truncates the token, and
  overflows the \<open>strdup\<close> buffer for a pid of three digits or more; a final \<open>>\<close>
  crashes the shell, on comment lines too; \<open>getInput\<close> reads back a line of joined words
  (a print/parse round trip); on canonical lines \<open>parse_line\<close> refines the specification's
  tokenizer.
  Launcher: the child's descriptor 0 is always the terminal and descriptor 1 is the
  output file, else the input file (the input redirection goes to descriptor 1); exit
  codes 1 and 2 of a failing child; the foreground status is recorded; a running
  background child is left unreaped with pid 0 printed. Shell: at end of input the loop
  never halts (unless the stale buffer says \<open>exit\<close>, crashes, or a fork fails);
  the status invariant on every reachable state (rule induction on \<open>shell_reach\<close>);
  built-ins fork nothing and keep the status; \<open>status\<close> and \<open>cd\<close> behave as lines
  50--71 say; empty and comment lines re-prompt. WaitStatus: decoding inverts the
  kernel's encoding, and the two messages print the exit code and the signal. Sessions:
  \<open>status\<close> as the first line prints exit 0; a foreground program followed by
  \<open>status\<close> reports how the program ended.

  \<^emph>\<open>Bounds and fuel.\<close> The loop \<open>run_fuel\<close> takes a number of iterations as fuel;
  the C loop need not end (it does not at end of input), so the fuel is a bound of the
  observation, not a termination argument, and the end-of-input theorem of \<open>Shell\<close> states divergence as
  \<open>None\<close> for every fuel. \<open>argv\<close> reads
  at most \<open>INPUTSIZE\<close> = 2048 slots, the size of the array; \<open>open\<close> allocates below
  \<open>OPEN_MAX\<close> = 1024 descriptors. The status is a 32-bit word as the C \<open>int\<close>.

  \<^emph>\<open>Not modelled.\<close> The stale buffer parsed at end of input is indeterminate in C
  (the frames of \<open>getInput\<close> and \<open>execInput\<close> share the stack); the model takes it as a
  fixed string of the environment. A background
  child runs to completion at the fork (its effect on the file system is applied then)
  and its later end is not observed, as the code never waits for it again. Signals,
  the contents of files a program reads or writes, and the interleaving of standard
  output and standard error (\<open>perror\<close> goes to the latter; the model has one terminal
  string) are not modelled; \<open>perror\<close>'s \<open>": strerror"\<close> suffix is dropped from the
  diagnostics. \<open>chdir\<close> does not interpret \<open>..\<close> or links, and \<open>open\<close> looks a
  redirection path up as written, not relative to the working directory. \<open>dup2\<close>
  onto a valid descriptor never fails in the model. The
  \<open>strcpy\<close> overflow of the 512-byte path buffers and the heap memory of \<open>strdup\<close>
  (never freed) are outside the model, except for the byte count of the \<open>$$\<close>
  expansion; the refinement theorem of \<open>CommandSpec\<close> therefore says nothing about
  paths of 512 characters or more, which overflow \<open>main\<close>'s path arrays.
\<close>

section \<open>Properties across the components\<close>

text \<open>
  C10: A session whose first line is \<open>status\<close> prints the prompt and
  \<^verbatim>\<open>Exited with signal: 0\<close> (the initial status of \<open>main\<close>, line 18) and changes
  nothing else, whatever the operating system does.
\<close>

theorem status_first_reports_exit_0:
  "main_step env (init_shell pid dir h fs (''status\<newline>'' @ rest)) =
     Next ((init_shell pid dir h fs rest)\<lparr>tty := '': Exited with signal: 0\<newline>''\<rparr>)"
proof -
  have w: "plain_word ''status''" "length ''status'' < INPUTSIZE - 1"
    by (simp_all add: plain_word_def plain_def INPUTSIZE_def)
  show ?thesis
    using getInput_word [OF w, of pid "stale_buf env" rest]
    by (simp add: main_step_def dispatch_def init_shell_def report_status_0)
qed

text \<open>
  C9: Tokenizer, launcher, reaper and the built-in together: a foreground command line
  naming a program \<open>p\<close> that \<open>execvp\<close> finds, followed by the line \<open>status\<close>, takes two
  iterations; the second prints the message decoded from how \<open>p\<close> ended, and the
  status recorded is that end.
\<close>

theorem foreground_then_status:
  assumes p: "plain_word p" "p \<notin> {''exit'', ''status'', ''cd''}" "hd p \<noteq> CHR ''#''" "length p < INPUTSIZE - 1"
    and env: "fork_ok env (nforks s)" "exec_ok env p"
    and inp: "stdin s = p @ CHR ''\<newline>'' # ''status\<newline>'' @ rest"
  shows "\<exists>s1 s2. main_step env s = Next s1 \<and> main_step env s1 = Next s2
           \<and> exit_status s2 = wait_status (fst (run_prog env [p] init_fds (fsys s)))
           \<and> tty s2 = tty s @ '': : '' @ report_status (wait_status (fst (run_prog env [p] init_fds (fsys s))))
           \<and> stdin s2 = rest \<and> zombies s2 = zombies s"
proof -
  let ?c = "empty_cmd\<lparr>data := [0 \<mapsto> p]\<rparr>"
  let ?e = "fst (run_prog env [p] init_fds (fsys s))"
  have argv: "argv ?c = [p]"
    using argv_upd_range [of "[p]" empty_cmd] by (simp add: upd_range_single INPUTSIZE_def)
  have ne: "p \<noteq> []" using p(1) by (simp add: plain_word_def)
  have ce: "child_end env (fsys s) ?c = (?e, snd (run_prog env [p] init_fds (fsys s)), [])"
    using child_end_no_redirect [of ?c env "fsys s"] env(2) argv by (simp add: empty_cmd_def)
  let ?s1 = "s\<lparr>stdin := ''status\<newline>'' @ rest, tty := tty s @ '': '', nforks := Suc (nforks s),
               fsys := snd (run_prog env [p] init_fds (fsys s)), exit_status := wait_status ?e\<rparr>"
  have step1: "main_step env s = Next ?s1"
    using getInput_word [OF p(1) p(4), of "sh_pid s" "stale_buf env" "''status\<newline>'' @ rest"] inp ne p(2,3) env(1) ce
    by (simp add: main_step_def dispatch_external execInput_def Let_def empty_cmd_def)
  have w: "plain_word ''status''" "length ''status'' < INPUTSIZE - 1"
    by (simp_all add: plain_word_def plain_def INPUTSIZE_def)
  have step2: "main_step env ?s1 = Next (?s1\<lparr>stdin := rest, tty := tty s @ '': : '' @ report_status (wait_status ?e)\<rparr>)"
    using getInput_word [OF w, of "sh_pid s" "stale_buf env" rest] by (simp add: main_step_def dispatch_def)
  show ?thesis using step1 step2 by auto
qed


theorem foreground_then_status_witness:
  "\<exists>s1 s2. main_step sample_env (sample_shell ''false\<newline>status\<newline>'') = Next s1 \<and> main_step sample_env s1 = Next s2
      \<and> exit_status s2 = 0x100 \<and> tty s2 = '': : Exited with signal: 1\<newline>'' \<and> stdin s2 = []"
proof -
  have h: "plain_word ''false''" "''false'' \<notin> {''exit'', ''status'', ''cd''}" "hd ''false'' \<noteq> CHR ''#''"
    "length ''false'' < INPUTSIZE - 1" "fork_ok sample_env (nforks (sample_shell ''false\<newline>status\<newline>''))"
    "exec_ok sample_env ''false''"
    "stdin (sample_shell ''false\<newline>status\<newline>'') = ''false'' @ CHR ''\<newline>'' # ''status\<newline>'' @ []"
    by code_simp+
  have e: "wait_status (fst (run_prog sample_env [''false''] init_fds (fsys (sample_shell ''false\<newline>status\<newline>'')))) = 0x100"
    "tty (sample_shell ''false\<newline>status\<newline>'') @ '': : '' @ report_status 0x100 = '': : Exited with signal: 1\<newline>''"
    by code_simp+
  from foreground_then_status [OF h] show ?thesis unfolding e by fastforce
qed

text \<open>
  C11: Print/parse round trip of \<open>getInput\<close>: a line of at most 512 words that contain no
  special character, joined by single spaces, is read back as exactly that argument
  vector, with no redirection, in the foreground, and the rest of the input is left.
\<close>

theorem getInput_roundtrip:
  assumes "\<forall>w \<in> set ws. plain_word w" "ws \<noteq> []" "length ws \<le> MAX_ARGS"
    and "length (join_words ws) < INPUTSIZE - 1"
  shows "\<exists>c. getInput pid stale (join_words ws @ CHR ''\<newline>'' # rest) empty_cmd = Inr (c, '': '', rest)
             \<and> argv c = ws \<and> input_file c = [] \<and> output_file c = [] \<and> \<not> background c"
proof -
  have "argv (empty_cmd\<lparr>data := upd_range Map.empty 0 ws\<rparr>) = ws"
    using assms(3) by (intro argv_upd_range) (simp add: MAX_ARGS_def INPUTSIZE_def)
  with getInput_words [OF assms, of pid stale rest] show ?thesis by (auto simp: empty_cmd_def)
qed

theorem getInput_roundtrip_witness:
  "list_all plain_word [''echo'', ''hi''] \<and> length (join_words [''echo'', ''hi'']) < INPUTSIZE - 1
   \<and> (\<exists>c. getInput 7 [] (join_words [''echo'', ''hi''] @ CHR ''\<newline>'' # ''ls\<newline>'') empty_cmd = Inr (c, '': '', ''ls\<newline>'')
        \<and> argv c = [''echo'', ''hi''] \<and> input_file c = [] \<and> output_file c = [] \<and> \<not> background c)"
proof -
  have h: "\<forall>w \<in> set [''echo'', ''hi'']. plain_word w" "[''echo'', ''hi''] \<noteq> []" "length [''echo'', ''hi''] \<le> MAX_ARGS"
    "length (join_words [''echo'', ''hi'']) < INPUTSIZE - 1"
    by code_simp+
  show ?thesis using getInput_roundtrip [OF h, of 7 "[]" "''ls\<newline>''"] h(1,4) by (simp add: list_all_iff)
qed

end
